theory Spec2Isabelle
  imports Complex_Main
begin

section \<open>Strings and numbers of the component\<close>

text \<open>
  The component \<open>LLMVisualization\<close> works on JavaScript strings and numbers.
  A string is modelled as a \<^typ>\<open>string\<close> whose characters are the UTF-16 code
  units \<open>U+0000\<close> to \<open>U+00FF\<close> (\<^const>\<open>of_char\<close> is \<open>charCodeAt\<close>); on this
  range \<open>toLowerCase\<close> and the regular expression class \<open>\s\<close> are given in full
  below. A number is an IEEE 754 binary64 value, modelled as the \<^typ>\<open>real\<close> it
  denotes; a count or an index is a \<^typ>\<open>nat\<close> or an \<^typ>\<open>int\<close>.
\<close>

definition toLowerChar :: "char \<Rightarrow> char" where
  "toLowerChar c =
     (let n = (of_char c :: nat)
      in if (65 \<le> n \<and> n \<le> 90) \<or> (192 \<le> n \<and> n \<le> 222 \<and> n \<noteq> 215)
         then char_of (n + 32) else c)"

definition toLowerCase :: "string \<Rightarrow> string" where
  "toLowerCase s = map toLowerChar s"

text \<open>The class \<open>\s\<close>: TAB, LF, VT, FF, CR, SPACE and NO-BREAK SPACE.\<close>

definition isWhitespace :: "char \<Rightarrow> bool" where
  "isWhitespace c = ((of_char c :: nat) \<in> {9, 10, 11, 12, 13, 32, 160})"

text \<open>The character class \<open>[\s,.!?;:'"()-]\<close> of \<open>tokenizeText\<close>.\<close>

definition isDelimiter :: "char \<Rightarrow> bool" where
  "isDelimiter c =
     (isWhitespace c \<or>
      (of_char c :: nat) \<in> {44, 46, 33, 63, 59, 58, 39, 34, 40, 41, 45})"

text \<open>
  \<open>s.split(/[...]+/g)\<close>: the fragments of \<open>s\<close> between the maximal runs of characters
  of the class; a run at the start or at the end leaves an empty fragment there, and
  the empty string gives one empty fragment. \<open>cur\<close> is the fragment being read.
\<close>

function splitRuns :: "(char \<Rightarrow> bool) \<Rightarrow> string \<Rightarrow> string \<Rightarrow> string list" where
  "splitRuns P cur [] = [cur]"
| "splitRuns P cur (c # cs) =
     (if P c then cur # splitRuns P [] (dropWhile P cs)
      else splitRuns P (cur @ [c]) cs)"
  by pat_completeness auto
termination
  by (relation "measure (\<lambda>(P, cur, s). length s)")
     (auto simp: length_dropWhile_le less_Suc_eq_le)

definition tokenizeText :: "string \<Rightarrow> string list" where
  "tokenizeText text =
     filter (\<lambda>word. length word > 0) (splitRuns isDelimiter [] (toLowerCase text))"

text \<open>
  The earlier variant of the component, in \<open>src/components/LLMVisualization.tsx\<close>,
  splits on \<open>/\s+/\<close> only.
\<close>

definition tokenizeText_ws :: "string \<Rightarrow> string list" where
  "tokenizeText_ws text =
     filter (\<lambda>word. length word > 0) (splitRuns isWhitespace [] (toLowerCase text))"

text \<open>
  The tokenizer in the words of the specification: lower-case, split at every
  character of the delimiter class, drop the empty fragments.
\<close>

fun splitAtEach :: "(char \<Rightarrow> bool) \<Rightarrow> string \<Rightarrow> string \<Rightarrow> string list" where
  "splitAtEach P cur [] = [cur]"
| "splitAtEach P cur (c # cs) =
     (if P c then cur # splitAtEach P [] cs else splitAtEach P (cur @ [c]) cs)"

definition tokenize_spec :: "string \<Rightarrow> string list" where
  "tokenize_spec text =
     filter (\<lambda>w. w \<noteq> []) (splitAtEach isDelimiter [] (map toLowerChar text))"

section \<open>Numbers\<close>

text \<open>
  An arithmetic operation on numbers is the exact operation followed by the rounding
  to binary64: to the nearest value with a 53-bit significand, of two nearest ones to
  the one with an even significand, with gradual underflow below \<open>2 ^ - 1022\<close>.
  \<open>scaleDown\<close> and \<open>scaleUp\<close> bring the magnitude between \<open>2 ^ 52\<close> and \<open>2 ^ 53\<close>
  (or stop at the exponent \<open>- 1074\<close> of the subnormal numbers), where rounding is
  rounding to an integer. Magnitudes of \<open>2 ^ 1024\<close> and above, which the code turns
  into \<open>Infinity\<close>, and \<open>NaN\<close> are not modelled: no operation below produces them
  from random values in \<open>[0, 1)\<close>.
\<close>

definition roundHalfEven :: "real \<Rightarrow> int" where
  "roundHalfEven m =
     (let f = \<lfloor>m\<rfloor>
      in if m - real_of_int f < 1 / 2 then f
         else if m - real_of_int f > 1 / 2 then f + 1
         else if even f then f else f + 1)"

function scaleDown :: "real \<Rightarrow> int \<Rightarrow> real \<times> int" where
  "scaleDown m e = (if 2 ^ 53 \<le> m then scaleDown (m / 2) (e + 1) else (m, e))"
  by pat_completeness auto
termination
proof (relation "measure (\<lambda>(m, e). nat \<lceil>m\<rceil>)")
  show "wf (measure (\<lambda>(m, e). nat \<lceil>m\<rceil>))" by simp
next
  fix m :: real and e :: int
  assume a: "2 ^ 53 \<le> m"
  have "m / 2 \<le> m - 1" using a by simp
  then have "\<lceil>m / 2\<rceil> \<le> \<lceil>m - 1\<rceil>" by (rule ceiling_mono)
  moreover have "0 < \<lceil>m\<rceil>" using a by (simp add: ceiling_less_iff not_le)
  ultimately show "((m / 2, e + 1), (m, e)) \<in> measure (\<lambda>(m, e). nat \<lceil>m\<rceil>)"
    by simp
qed

function scaleUp :: "real \<Rightarrow> int \<Rightarrow> real \<times> int" where
  "scaleUp m e = (if m < 2 ^ 52 \<and> - 1074 < e then scaleUp (m * 2) (e - 1) else (m, e))"
  by pat_completeness auto
termination
  by (relation "measure (\<lambda>(m, e). nat (e + 1074))") auto

definition roundMagnitude :: "real \<Rightarrow> real" where
  "roundMagnitude a =
     (case (if 2 ^ 53 \<le> a then scaleDown a 0 else scaleUp a 0) of
        (m, e) \<Rightarrow> real_of_int (roundHalfEven m) * 2 powi e)"

definition binary64 :: "real \<Rightarrow> real" where
  "binary64 x =
     (if x = 0 then 0 else if x < 0 then - roundMagnitude (- x) else roundMagnitude x)"

text \<open>
  The decimal that \<open>x.toFixed(3)\<close> prints: the multiple of \<open>1/1000\<close> nearest to \<open>x\<close>; of
  two nearest ones the one with the larger absolute value (\<open>toFixed\<close> rounds the
  absolute value and takes the larger candidate).
\<close>

definition toFixed3 :: "real \<Rightarrow> real" where
  "toFixed3 x =
     (if x < 0 then - (real_of_int \<lfloor>(- x) * 1000 + 1 / 2\<rfloor> / 1000)
      else real_of_int \<lfloor>x * 1000 + 1 / 2\<rfloor> / 1000)"

text \<open>\<open>parseFloat(x.toFixed(3))\<close>: the number nearest to that decimal.\<close>

definition parseFixed3 :: "real \<Rightarrow> real" where
  "parseFixed3 x = binary64 (toFixed3 x)"

section \<open>Embedding generator\<close>

record Token =
  token :: string
  vector :: "real list"

text \<open>
  \<open>Math.sin\<close> and \<open>Math.cos\<close> are approximations that the language leaves to the
  implementation: a coordinate of an embedding is modelled over the reals, as the
  decimal that \<open>toFixed(3)\<close> prints for the exact value of the expression.
\<close>

text \<open>\<open>token.split('').reduce((acc, char) => acc + char.charCodeAt(0), 0)\<close>\<close>

definition tokenHash :: "string \<Rightarrow> nat" where
  "tokenHash tok = fold (\<lambda>char acc. acc + of_char char) tok 0"

text \<open>
  \<open>Array.from({ length: dimension }, (_, i) => ...)\<close>: a length that is zero or
  negative gives the empty array.
\<close>

definition embeddingVector :: "nat \<Rightarrow> int \<Rightarrow> real list" where
  "embeddingVector h dimension =
     map (\<lambda>i. toFixed3 (sin ((real h + real i * 10) / 50) * cos (real i / 3) * 2))
       [0..<nat dimension]"

text \<open>
  The callback of \<open>tokenList.map\<close>, run over the list with the cache it updates.
\<close>

fun embedTokens :: "int \<Rightarrow> (string \<rightharpoonup> real list) \<Rightarrow> string list \<Rightarrow> Token list" where
  "embedTokens dimension embeddingCache [] = []"
| "embedTokens dimension embeddingCache (tok # rest) =
     (case embeddingCache tok of
        Some v \<Rightarrow> \<lparr>token = tok, vector = v\<rparr> # embedTokens dimension embeddingCache rest
      | None \<Rightarrow>
          (let v = embeddingVector (tokenHash tok) dimension
           in \<lparr>token = tok, vector = v\<rparr>
                # embedTokens dimension (embeddingCache(tok \<mapsto> v)) rest))"

definition generateEmbeddings :: "string list \<Rightarrow> int \<Rightarrow> Token list" where
  "generateEmbeddings tokenList dimension = embedTokens dimension Map.empty tokenList"

section \<open>Attention weight generator\<close>

text \<open>
  \<open>Math.random()\<close> is modelled by the sequence of the values it returns, each in
  \<open>[0, 1)\<close>, and the position of the next value; every function that calls it
  returns the position it has reached.
\<close>

type_synonym rng = "nat \<Rightarrow> real"

definition validRng :: "rng \<Rightarrow> bool" where
  "validRng rnd = (\<forall>k. 0 \<le> rnd k \<and> rnd k < 1)"

text \<open>A sequence that starts with the given values and goes on with zeros.\<close>

definition rngOfList :: "real list \<Rightarrow> rng" where
  "rngOfList xs k = (if k < length xs then xs ! k else 0)"

text \<open>
  The body of the inner loop up to the value of \<open>weight\<close>. The literals \<open>0.1\<close>,
  \<open>0.7\<close>, \<open>0.2\<close> and \<open>0.3\<close> are the numbers nearest to these decimals.
\<close>

definition attentionWeight :: "rng \<Rightarrow> nat \<Rightarrow> string list \<Rightarrow> nat \<Rightarrow> nat \<Rightarrow> real \<times> nat" where
  "attentionWeight rnd k tokenList i j =
     (let weight = binary64 (rnd k * binary64 (1 / 10))
      in if i = j then (binary64 (weight + binary64 (7 / 10)), k + 1)
         else if \<bar>int i - int j\<bar> \<le> 1 then (binary64 (weight + binary64 (1 / 5)), k + 1)
         else if tokenList ! i = tokenList ! j \<and> length (tokenList ! i) > 1
           then (binary64 (weight + binary64 (3 / 10)), k + 1)
         else if rnd (k + 1) < binary64 (1 / 10)
           then (binary64 (weight + binary64 (rnd (k + 2) * binary64 (1 / 5))), k + 3)
         else (weight, k + 2))"

text \<open>
  The inner loop over \<open>j\<close> with its variables \<open>row\<close> and \<open>sum\<close> (here \<open>rowsum\<close>),
  followed by the normalisation of the row.
\<close>

function attentionRow ::
  "rng \<Rightarrow> string list \<Rightarrow> nat \<Rightarrow> nat \<Rightarrow> real list \<Rightarrow> real \<Rightarrow> nat \<Rightarrow> real list \<times> nat" where
  "attentionRow rnd tokenList i j row rowsum k =
     (if j < length tokenList then
        (case attentionWeight rnd k tokenList i j of
           (weight, k') \<Rightarrow>
             attentionRow rnd tokenList i (j + 1) (row @ [parseFixed3 weight])
               (binary64 (rowsum + weight)) k')
      else (map (\<lambda>w. parseFixed3 (binary64 (w / rowsum))) row, k))"
  by pat_completeness auto
termination
  by (relation "measure (\<lambda>(rnd, tokenList, i, j, row, rowsum, k). length tokenList - j)") auto

text \<open>The outer loop over \<open>i\<close> with its variable \<open>weights\<close>.\<close>

function attentionRows ::
  "rng \<Rightarrow> string list \<Rightarrow> nat \<Rightarrow> real list list \<Rightarrow> nat \<Rightarrow> real list list \<times> nat" where
  "attentionRows rnd tokenList i weights k =
     (if i < length tokenList then
        (case attentionRow rnd tokenList i 0 [] 0 k of
           (row, k') \<Rightarrow> attentionRows rnd tokenList (i + 1) (weights @ [row]) k')
      else (weights, k))"
  by pat_completeness auto
termination
  by (relation "measure (\<lambda>(rnd, tokenList, i, weights, k). length tokenList - i)") auto

definition generateAttentionWeights :: "rng \<Rightarrow> nat \<Rightarrow> string list \<Rightarrow> real list list \<times> nat" where
  "generateAttentionWeights rnd k tokenList = attentionRows rnd tokenList 0 [] k"

text \<open>
  The raw weights of row \<open>i\<close> from column \<open>j\<close> on, as the inner loop computes them
  one after the other (used to state what the loop returns).
\<close>

function rawWeights :: "rng \<Rightarrow> string list \<Rightarrow> nat \<Rightarrow> nat \<Rightarrow> nat \<Rightarrow> real list \<times> nat" where
  "rawWeights rnd tokenList i j k =
     (if j < length tokenList then
        (case attentionWeight rnd k tokenList i j of
           (weight, k') \<Rightarrow>
             (case rawWeights rnd tokenList i (j + 1) k' of
                (ws, k'') \<Rightarrow> (weight # ws, k'')))
      else ([], k))"
  by pat_completeness auto
termination
  by (relation "measure (\<lambda>(rnd, tokenList, i, j, k). length tokenList - j)") auto

text \<open>The value of a variable that starts at \<open>s\<close> after \<open>+=\<close> of each element in turn.\<close>

definition floatSum :: "real \<Rightarrow> real list \<Rightarrow> real" where
  "floatSum s ws = foldl (\<lambda>acc w. binary64 (acc + w)) s ws"

text \<open>
  The normalisation in the words of the specification: the divisor is the sum of the
  rounded weights of the row.
\<close>

definition normalizeByRoundedSum :: "real list \<Rightarrow> real list" where
  "normalizeByRoundedSum ws =
     (let row = map parseFixed3 ws
      in map (\<lambda>w. parseFixed3 (binary64 (w / floatSum 0 row))) row)"

text \<open>What the code does: the divisor is the sum of the weights before rounding.\<close>

definition normalizeByRawSum :: "real list \<Rightarrow> real list" where
  "normalizeByRawSum ws =
     map (\<lambda>w. parseFixed3 (binary64 (parseFixed3 w / floatSum 0 ws))) ws"

text \<open>
  The position in the random sequence at which row \<open>i\<close> starts, when the first row
  starts at \<open>k\<close> (used to state what the outer loop returns).
\<close>

fun rowStart :: "rng \<Rightarrow> string list \<Rightarrow> nat \<Rightarrow> nat \<Rightarrow> nat" where
  "rowStart rnd tokenList 0 k = k"
| "rowStart rnd tokenList (Suc i) k =
     snd (attentionRow rnd tokenList i 0 [] 0 (rowStart rnd tokenList i k))"

section \<open>Output generator\<close>

fun startsWith :: "string \<Rightarrow> string \<Rightarrow> bool" where
  "startsWith s [] = True"
| "startsWith [] (p # ps) = False"
| "startsWith (c # cs) (p # ps) = (c = p \<and> startsWith cs ps)"

text \<open>\<open>s.includes(sub)\<close>: \<open>sub\<close> occurs in \<open>s\<close> as a substring.\<close>

fun str_includes :: "string \<Rightarrow> string \<Rightarrow> bool" where
  "str_includes [] sub = (sub = [])"
| "str_includes (c # cs) sub = (startsWith (c # cs) sub \<or> str_includes cs sub)"

text \<open>The cases of \<open>switch (lastToken)\<close> other than \<open>default\<close>.\<close>

definition lexiconReply :: "string \<Rightarrow> string option" where
  "lexiconReply lastToken =
     (if lastToken = ''fox'' then Some ''jumps over the lazy dog.''
      else if lastToken = ''quick'' then Some ''brown fox jumps.''
      else if lastToken = ''brown'' then Some ''fox is fast.''
      else if lastToken = ''apple'' then Some ''is a delicious fruit.''
      else if lastToken = ''cat'' then Some ''sits quietly.''
      else if lastToken = ''dog'' then Some ''barks loudly.''
      else if lastToken = ''computer'' then Some ''is a powerful tool.''
      else if lastToken = ''data'' then Some ''is the new oil.''
      else None)"

definition fillerPhrases :: "string list" where
  "fillerPhrases =
     [''What comes next?'', ''Thinking about that...'', ''A fascinating input!'',
      ''Let's see...'', ''Processing the tokens now.'']"

text \<open>
  \<open>[...][Math.floor(Math.random() * 5)]\<close> inside the template string, for the random
  value \<open>r\<close>: an index outside the array reads \<open>undefined\<close>, which the template
  prints as such.
\<close>

definition randomPhrase :: "real \<Rightarrow> string" where
  "randomPhrase r =
     (let idx = \<lfloor>binary64 (r * 5)\<rfloor>
      in if 0 \<le> idx \<and> idx < int (length fillerPhrases) then fillerPhrases ! nat idx
         else ''undefined'')"

text \<open>
  \<open>generateSimpleOutput\<close> reads \<open>currentStep\<close> from the component, the clock through
  \<open>new Date().toLocaleTimeString()\<close> (here the string \<open>now\<close>) and \<open>Math.random()\<close>;
  it does not use \<open>currentEmbeddings\<close>.
\<close>

definition generatedPart :: "rng \<Rightarrow> nat \<Rightarrow> string \<Rightarrow> string \<Rightarrow> string list \<Rightarrow> string \<times> nat" where
  "generatedPart rnd k now input currentTokens =
     (let lastToken = currentTokens ! (length currentTokens - 1)
      in if str_includes (toLowerCase input) ''hello''
           then (''Hey there! How can I assist you today?'', k)
         else if str_includes (toLowerCase input) ''question''
           then (''I'm ready to answer your question!'', k)
         else if str_includes (toLowerCase input) ''name''
           then (''My name is LLM-Vis. What's yours?'', k)
         else if str_includes (toLowerCase input) ''weather''
           then (''The weather is simulated to be sunny.'', k)
         else if str_includes (toLowerCase input) ''time''
           then (''It's currently '' @ now @ '' here.'', k)
         else if length currentTokens > 3 then
           (case lexiconReply lastToken of
              Some reply \<Rightarrow> (reply, k)
            | None \<Rightarrow>
                (''... and then '' @ lastToken @ '' leads to: '' @ randomPhrase (rnd k), k + 1))
         else (''Please provide more context.'', k))"

definition generateSimpleOutput ::
  "rng \<Rightarrow> nat \<Rightarrow> string \<Rightarrow> int \<Rightarrow> string \<Rightarrow> string list \<Rightarrow> Token list \<Rightarrow> string \<times> nat" where
  "generateSimpleOutput rnd k now currentStep input currentTokens currentEmbeddings =
     (if length currentTokens = 0 then (''Start typing to generate output...'', k)
      else
        (case generatedPart rnd k now input currentTokens of
           (part, k') \<Rightarrow>
             if length currentTokens < 3 \<and> currentStep = 4
               then (''Input is a bit short. Could you elaborate?'', k')
             else if length currentTokens > 7 then
               (if rnd k' > 0.5 then (part @ '' A lot to think about!'', k' + 1)
                else (part, k' + 1))
             else (part, k')))"

section \<open>Stage controller\<close>

text \<open>
  The state of the component: the values held by \<open>useState\<close>, and the timeout set by
  the first effect (\<open>timer\<close> is the identifier of the pending timeout, if there is
  one; \<open>nextTimerId\<close> is the identifier \<open>setTimeout\<close> returns next). The field
  \<open>outputText\<close> is the state variable \<open>output\<close>.
\<close>

record state =
  currentStep :: int
  isPlaying :: bool
  inputText :: string
  tokens :: "string list"
  embeddings :: "Token list"
  attentionWeights :: "real list list"
  outputText :: string
  animationSpeed :: int
  embeddingDimension :: int
  timer :: "nat option"
  nextTimerId :: nat

definition stepsLength :: int where
  "stepsLength = 5"

datatype event =
    InputChange string
  | PlayClick
  | ResetClick
  | StepClick int
  | SpeedChange int
  | DimensionChange int
  | TimerFires nat

definition handlePlay :: "state \<Rightarrow> state" where
  "handlePlay s =
     (if \<not> isPlaying s \<and> currentStep s = stepsLength - 1
      then s\<lparr>currentStep := 0, isPlaying := True\<rparr>
      else s\<lparr>isPlaying := \<not> isPlaying s\<rparr>)"

definition handleReset :: "state \<Rightarrow> state" where
  "handleReset s = s\<lparr>currentStep := 0, isPlaying := False, inputText := ''The quick brown fox''\<rparr>"

definition handleStepClick :: "int \<Rightarrow> state \<Rightarrow> state" where
  "handleStepClick stepIndex s = s\<lparr>currentStep := stepIndex, isPlaying := False\<rparr>"

definition handleInputChange :: "string \<Rightarrow> state \<Rightarrow> state" where
  "handleInputChange v s = s\<lparr>inputText := v, currentStep := 0, isPlaying := False\<rparr>"

definition handleSpeedChange :: "int \<Rightarrow> state \<Rightarrow> state" where
  "handleSpeedChange v s = s\<lparr>animationSpeed := v\<rparr>"

definition handleEmbeddingDimensionChange :: "int \<Rightarrow> state \<Rightarrow> state" where
  "handleEmbeddingDimensionChange v s = s\<lparr>embeddingDimension := v\<rparr>"

text \<open>
  The callback given to \<open>setTimeout\<close>; it runs only if its timeout is still pending,
  and a timeout fires once.
\<close>

definition timerCallback :: "nat \<Rightarrow> state \<Rightarrow> state" where
  "timerCallback tid s =
     (if timer s = Some tid then s\<lparr>currentStep := currentStep s + 1, timer := None\<rparr> else s)"

fun handler :: "event \<Rightarrow> state \<Rightarrow> state" where
  "handler (InputChange v) s = handleInputChange v s"
| "handler PlayClick s = handlePlay s"
| "handler ResetClick s = handleReset s"
| "handler (StepClick i) s = handleStepClick i s"
| "handler (SpeedChange v) s = handleSpeedChange v s"
| "handler (DimensionChange v) s = handleEmbeddingDimensionChange v s"
| "handler (TimerFires tid) s = timerCallback tid s"

text \<open>
  The first effect, with the cleanup of its previous run (\<open>clearTimeout\<close>) before it.
\<close>

definition advanceEffect :: "state \<Rightarrow> state" where
  "advanceEffect s =
     (let s0 = s\<lparr>timer := None\<rparr>
      in if isPlaying s \<and> currentStep s < stepsLength - 1
           then s0\<lparr>timer := Some (nextTimerId s), nextTimerId := nextTimerId s + 1\<rparr>
         else if currentStep s = stepsLength - 1 then s0\<lparr>isPlaying := False\<rparr>
         else s0)"

text \<open>The third effect: the recomputation of the four artifacts.\<close>

definition recomputeEffect :: "rng \<Rightarrow> string \<Rightarrow> state \<Rightarrow> state" where
  "recomputeEffect rnd now s =
     (let tokenList = tokenizeText (inputText s);
          att = generateAttentionWeights rnd 0 tokenList
      in s\<lparr>tokens := tokenList,
            embeddings :=
              (if currentStep s \<ge> 2 then generateEmbeddings tokenList (embeddingDimension s)
               else []),
            attentionWeights := (if currentStep s \<ge> 3 then fst att else []),
            outputText :=
              (if currentStep s \<ge> 4
               then fst (generateSimpleOutput rnd (if currentStep s \<ge> 3 then snd att else 0) now
                      (currentStep s) (inputText s) tokenList (embeddings s))
               else [])\<rparr>)"

text \<open>
  One pass of the effects after a render: an effect runs if one of its dependencies
  differs from the previous render (\<open>prev\<close>). The effects read the state that was
  rendered; the first one writes \<open>isPlaying\<close> and the timeout only, which the third
  one does not read.
\<close>

definition runEffects :: "rng \<Rightarrow> string \<Rightarrow> state \<Rightarrow> state \<Rightarrow> state" where
  "runEffects rnd now prev s =
     (let s1 = (if currentStep prev \<noteq> currentStep s \<or> isPlaying prev \<noteq> isPlaying s
                   \<or> animationSpeed prev \<noteq> animationSpeed s
                then advanceEffect s else s)
      in if inputText prev \<noteq> inputText s \<or> currentStep prev \<noteq> currentStep s
            \<or> embeddingDimension prev \<noteq> embeddingDimension s
         then recomputeEffect rnd now s1 else s1)"

text \<open>
  One event: the handler, the effects of the render it causes, and the effects of the
  render that the \<open>setIsPlaying(false)\<close> of the first effect causes. After that no
  dependency has changed any more.
\<close>

definition step :: "rng \<Rightarrow> string \<Rightarrow> event \<Rightarrow> state \<Rightarrow> state" where
  "step rnd now ev prev =
     (let s = handler ev prev;
          s1 = runEffects rnd now prev s
      in runEffects rnd now s s1)"

definition defaultState :: state where
  "defaultState =
     \<lparr>currentStep = 0, isPlaying = False, inputText = ''The quick brown fox'',
      tokens = [], embeddings = [], attentionWeights = [], outputText = [],
      animationSpeed = 2000, embeddingDimension = 8, timer = None, nextTimerId = 0\<rparr>"

text \<open>Mounting the component runs every effect once.\<close>

definition mount :: "rng \<Rightarrow> string \<Rightarrow> state" where
  "mount rnd now = recomputeEffect rnd now (advanceEffect defaultState)"

inductive reachable :: "state \<Rightarrow> bool" where
  reachable_mount: "reachable (mount rnd now)"
| reachable_step: "reachable s \<Longrightarrow> reachable (step rnd now ev s)"

fun run :: "(rng \<times> string \<times> event) list \<Rightarrow> state \<Rightarrow> state" where
  "run [] s = s"
| "run ((rnd, now, ev) # es) s = run es (step rnd now ev s)"

text \<open>
  Three properties of a state, used to state what every reachable state satisfies:
  the artifacts of the stages not yet reached are empty; a pending timeout belongs to
  a playing walkthrough below the last stage; the timeout \<open>tid\<close> has been set before
  and is not pending.
\<close>

definition stageGated :: "state \<Rightarrow> bool" where
  "stageGated s =
     (tokens s = tokenizeText (inputText s) \<and>
      (currentStep s < 2 \<longrightarrow> embeddings s = []) \<and>
      (currentStep s < 3 \<longrightarrow> attentionWeights s = []) \<and>
      (currentStep s < 4 \<longrightarrow> outputText s = []))"

definition timerPending :: "state \<Rightarrow> bool" where
  "timerPending s =
     (case timer s of
        None \<Rightarrow> True
      | Some t \<Rightarrow> isPlaying s \<and> currentStep s < stepsLength - 1 \<and> t < nextTimerId s)"

definition timerGone :: "nat \<Rightarrow> state \<Rightarrow> bool" where
  "timerGone tid s = (timer s \<noteq> Some tid \<and> tid < nextTimerId s)"

declare attentionRow.simps [simp del] attentionRows.simps [simp del] rawWeights.simps [simp del]

declare scaleUp.simps [simp del] scaleDown.simps [simp del]

section \<open>The tokenizer\<close>

lemma splitAtEach_dropWhile:
  "filter (\<lambda>w. w \<noteq> []) (splitAtEach P [] (dropWhile P s)) =
   filter (\<lambda>w. w \<noteq> []) (splitAtEach P [] s)"
  by (induction s) auto

lemma splitRuns_splitAtEach:
  "filter (\<lambda>w. w \<noteq> []) (splitRuns P cur s) =
   filter (\<lambda>w. w \<noteq> []) (splitAtEach P cur s)"
proof (induction P cur s rule: splitRuns.induct)
  case (1 P cur)
  show ?case by simp
next
  case (2 P cur c cs)
  show ?case
  proof (cases "P c")
    case True
    with 2 show ?thesis by (simp add: splitAtEach_dropWhile)
  next
    case False
    with 2 show ?thesis by simp
  qed
qed

lemma concat_splitRuns: "concat (splitRuns P cur s) = cur @ filter (\<lambda>c. \<not> P c) s"
proof (induction P cur s rule: splitRuns.induct)
  case (1 P cur)
  show ?case by simp
next
  case (2 P cur c cs)
  have "filter (\<lambda>c. \<not> P c) (dropWhile P cs) = filter (\<lambda>c. \<not> P c) cs"
    by (induction cs) auto
  with 2 show ?case by simp
qed

lemma concat_filter_nonempty: "concat (filter (\<lambda>w. w \<noteq> []) xs) = concat xs"
  by (induction xs) auto

text \<open>
  Claim C3, as amended. \<open>tokenizeText\<close> of the component with the pipeline
  lower-cases the text, splits it at the characters of the delimiter class (white
  space and \<open>. , ! ? ; : ' " ( ) -\<close>) and drops the empty fragments: it is the
  tokenizer of the specification. \<open>tokenizeText\<close> of the earlier component in
  \<open>src/components/LLMVisualization.tsx\<close> does the same with white space as the only
  delimiter. For both, the tokens, one after the other, are the lower-cased text
  without its delimiters, so nothing is reordered, dropped or merged and repeated
  words are kept; both turn the default text into \<open>the, quick, brown, fox\<close>.
\<close>

theorem tokenizeText_spec:
  "tokenizeText text = tokenize_spec text
   \<and> concat (tokenizeText text) = filter (\<lambda>c. \<not> isDelimiter c) (toLowerCase text)
   \<and> tokenizeText ''The quick brown fox'' = [''the'', ''quick'', ''brown'', ''fox'']
   \<and> tokenizeText ''To be, or not to be'' = [''to'', ''be'', ''or'', ''not'', ''to'', ''be'']
   \<and> tokenizeText_ws text =
       filter (\<lambda>w. w \<noteq> []) (splitAtEach isWhitespace [] (map toLowerChar text))
   \<and> concat (tokenizeText_ws text) = filter (\<lambda>c. \<not> isWhitespace c) (toLowerCase text)
   \<and> tokenizeText_ws ''The quick brown fox'' = [''the'', ''quick'', ''brown'', ''fox'']"
proof (intro conjI)
  show "tokenizeText text = tokenize_spec text"
    by (simp add: tokenizeText_def tokenize_spec_def toLowerCase_def splitRuns_splitAtEach)
  show "concat (tokenizeText text) = filter (\<lambda>c. \<not> isDelimiter c) (toLowerCase text)"
    by (simp add: tokenizeText_def concat_filter_nonempty concat_splitRuns)
  show "tokenizeText ''The quick brown fox'' = [''the'', ''quick'', ''brown'', ''fox'']"
    by code_simp
  show "tokenizeText ''To be, or not to be'' = [''to'', ''be'', ''or'', ''not'', ''to'', ''be'']"
    by code_simp
  show "tokenizeText_ws text =
       filter (\<lambda>w. w \<noteq> []) (splitAtEach isWhitespace [] (map toLowerChar text))"
    by (simp add: tokenizeText_ws_def toLowerCase_def splitRuns_splitAtEach)
  show "concat (tokenizeText_ws text) = filter (\<lambda>c. \<not> isWhitespace c) (toLowerCase text)"
    by (simp add: tokenizeText_ws_def concat_filter_nonempty concat_splitRuns)
  show "tokenizeText_ws ''The quick brown fox'' = [''the'', ''quick'', ''brown'', ''fox'']"
    by code_simp
qed

text \<open>
  The earlier component keeps the comma of \<open>Hello, world\<close> in its first token, where
  the tokenizer of the claim gives \<open>hello, world\<close> without it.
\<close>

theorem tokenizeText_ws_counterexample:
  "tokenizeText_ws ''Hello, world'' = [''hello,'', ''world''] \<and>
   tokenize_spec ''Hello, world'' = [''hello'', ''world'']"
  by code_simp

section \<open>Rounding to binary64\<close>

lemma roundHalfEven_error: "\<bar>real_of_int (roundHalfEven m) - m\<bar> \<le> 1 / 2"
proof -
  have "real_of_int \<lfloor>m\<rfloor> \<le> m" "m < real_of_int \<lfloor>m\<rfloor> + 1" by linarith+
  then show ?thesis by (auto simp: roundHalfEven_def Let_def)
qed

lemma roundHalfEven_nonneg: "0 \<le> m \<Longrightarrow> 0 \<le> roundHalfEven m"
  by (auto simp: roundHalfEven_def Let_def intro: add_nonneg_nonneg)

lemma scaleUp_spec:
  "0 < m \<Longrightarrow> - 1074 \<le> e \<Longrightarrow>
   fst (scaleUp m e) * 2 powi snd (scaleUp m e) = m * 2 powi e \<and> 0 < fst (scaleUp m e) \<and>
   (2 ^ 52 \<le> fst (scaleUp m e) \<or> snd (scaleUp m e) = - 1074)"
proof (induction m e rule: scaleUp.induct)
  case (1 m e)
  show ?case
  proof (cases "m < 2 ^ 52 \<and> - 1074 < e")
    case True
    have eq: "scaleUp m e = scaleUp (m * 2) (e - 1)"
      using True by (subst scaleUp.simps) simp
    have p: "(m * 2) * 2 powi (e - 1) = m * 2 powi e"
      by (simp add: power_int_diff)
    from "1.IH" [OF True] "1.prems" True p show ?thesis
      unfolding eq by simp
  next
    case False
    have eq: "scaleUp m e = (m, e)"
      by (subst scaleUp.simps) (simp only: False if_False)
    from False "1.prems" show ?thesis unfolding eq by auto
  qed
qed

lemma scaleDown_spec:
  "2 ^ 52 \<le> m \<Longrightarrow>
   fst (scaleDown m e) * 2 powi snd (scaleDown m e) = m * 2 powi e \<and>
   2 ^ 52 \<le> fst (scaleDown m e)"
proof (induction m e rule: scaleDown.induct)
  case (1 m e)
  show ?case
  proof (cases "2 ^ 53 \<le> m")
    case True
    have eq: "scaleDown m e = scaleDown (m / 2) (e + 1)"
      using True by (subst scaleDown.simps) simp
    have p: "(m / 2) * 2 powi (e + 1) = m * 2 powi e"
      by (simp add: power_int_add)
    have "2 ^ 52 \<le> m / 2" using True by simp
    from "1.IH" [OF True this]
    have a1: "fst (scaleDown (m / 2) (e + 1)) * 2 powi snd (scaleDown (m / 2) (e + 1)) =
                (m / 2) * 2 powi (e + 1)"
      and a2: "2 ^ 52 \<le> fst (scaleDown (m / 2) (e + 1))"
      by blast+
    show ?thesis unfolding eq using a1 [unfolded p] a2 by blast
  next
    case False
    have eq: "scaleDown m e = (m, e)"
      by (subst scaleDown.simps) (simp only: False if_False)
    from "1.prems" show ?thesis unfolding eq by simp
  qed
qed

text \<open>The error of one rounding: half a unit in the last place.\<close>

lemma roundMagnitude_error:
  assumes "0 < a"
  shows "\<bar>roundMagnitude a - a\<bar> \<le> a / 2 ^ 53 + 1 / 2 ^ 1075 \<and> 0 \<le> roundMagnitude a"
proof -
  define p where "p = (if 2 ^ 53 \<le> a then scaleDown a 0 else scaleUp a 0)"
  define m where "m = fst p"
  define e where "e = snd p"
  have spec: "m * 2 powi e = a \<and> 0 < m \<and> (2 ^ 52 \<le> m \<or> e = - 1074)"
  proof (cases "(2::real) ^ 53 \<le> a")
    case True
    then have "(2::real) ^ 52 \<le> a" by (simp add: order_trans [of "2 ^ 52" "2 ^ 53"])
    from scaleDown_spec [OF this, of 0] True show ?thesis
      by (auto simp: p_def m_def e_def)
  next
    case False
    with scaleUp_spec [OF assms, of 0] show ?thesis
      by (auto simp: p_def m_def e_def)
  qed
  have R: "roundMagnitude a = real_of_int (roundHalfEven m) * 2 powi e"
    by (simp add: roundMagnitude_def p_def m_def e_def split: prod.splits)
  have pos: "(0::real) < 2 powi e" by simp
  have "\<bar>roundMagnitude a - a\<bar> = \<bar>real_of_int (roundHalfEven m) - m\<bar> * 2 powi e"
  proof -
    have "roundMagnitude a - a = (real_of_int (roundHalfEven m) - m) * 2 powi e"
      using spec by (simp add: R algebra_simps)
    then show ?thesis using pos by (simp add: abs_mult)
  qed
  also have "\<dots> \<le> (1 / 2) * 2 powi e"
    using roundHalfEven_error [of m] pos by (intro mult_right_mono) auto
  finally have b: "\<bar>roundMagnitude a - a\<bar> \<le> 2 powi e / 2" by simp
  have "2 powi e / 2 \<le> a / 2 ^ 53 + 1 / 2 ^ 1075"
  proof (cases "2 ^ 52 \<le> m")
    case True
    then have "2 ^ 52 * 2 powi e \<le> m * 2 powi e"
      using pos by (intro mult_right_mono) auto
    then have "2 ^ 52 * 2 powi e \<le> a" using spec by simp
    then have "2 powi e / 2 \<le> a / 2 ^ 53" by simp
    then show ?thesis by (simp add: add_increasing2)
  next
    case False
    with spec have "e = - 1074" by blast
    then have "2 powi e / 2 = (1::real) / 2 ^ 1075"
      by (simp add: power_int_minus field_simps)
    then show ?thesis using assms by simp
  qed
  with b have "\<bar>roundMagnitude a - a\<bar> \<le> a / 2 ^ 53 + 1 / 2 ^ 1075" by linarith
  moreover have "0 \<le> roundMagnitude a"
    unfolding R using spec pos roundHalfEven_nonneg [of m] by (intro mult_nonneg_nonneg) auto
  ultimately show ?thesis by blast
qed

lemma abs_neg_swap: "\<bar>r - (- x)\<bar> \<le> c \<Longrightarrow> \<bar>- r - x\<bar> \<le> (c::real)"
  by linarith

lemma scaled_pos: "(2::real) ^ 52 \<le> m * 2 ^ k \<Longrightarrow> 0 < m"
proof (rule ccontr)
  assume a: "(2::real) ^ 52 \<le> m * 2 ^ k" and "\<not> 0 < m"
  then have "m * 2 ^ k \<le> 0" by (simp add: mult_le_0_iff)
  with a show False by simp
qed

lemma binary64_error: "\<bar>binary64 x - x\<bar> \<le> \<bar>x\<bar> / 2 ^ 53 + 1 / 2 ^ 1075"
proof -
  consider "x = 0" | "x < 0" | "0 < x" by linarith
  then show ?thesis
  proof cases
    case 1
    then show ?thesis by (simp add: binary64_def)
  next
    case 2
    then have "0 < - x" by simp
    from roundMagnitude_error [OF this]
    have "\<bar>roundMagnitude (- x) - (- x)\<bar> \<le> (- x) / 2 ^ 53 + 1 / 2 ^ 1075" by blast
    then have "\<bar>- roundMagnitude (- x) - x\<bar> \<le> (- x) / 2 ^ 53 + 1 / 2 ^ 1075"
      by (rule abs_neg_swap)
    moreover have "binary64 x = - roundMagnitude (- x)" using 2 by (simp add: binary64_def)
    moreover have "\<bar>x\<bar> = - x" using 2 by simp
    ultimately show ?thesis by simp
  next
    case 3
    from roundMagnitude_error [OF this] 3 show ?thesis by (simp add: binary64_def)
  qed
qed

lemma binary64_nonneg: "0 \<le> x \<Longrightarrow> 0 \<le> binary64 x"
  using roundMagnitude_error [of x] by (cases "x = 0") (auto simp: binary64_def)

lemma binary64_near: "\<bar>x\<bar> \<le> 4 \<Longrightarrow> \<bar>binary64 x - x\<bar> \<le> 1 / 1000000000000000"
proof -
  assume a: "\<bar>x\<bar> \<le> 4"
  have "\<bar>x\<bar> / 2 ^ 53 \<le> 4 / 2 ^ 53" using a by (intro divide_right_mono) auto
  moreover have "(4::real) / 2 ^ 53 + 1 / 2 ^ 1075 \<le> 1 / 1000000000000000" by simp
  ultimately show ?thesis using binary64_error [of x] by linarith
qed

lemma binary64_range:
  "0 \<le> x \<Longrightarrow> x \<le> 4 \<Longrightarrow> 0 \<le> binary64 x \<and> \<bar>binary64 x - x\<bar> \<le> 1 / 1000000000000000"
  using binary64_nonneg [of x] binary64_near [of x] by simp

lemma scaleUp_eval:
  "2 ^ 52 \<le> m * 2 ^ k \<Longrightarrow> m * 2 ^ k < 2 ^ 53 \<Longrightarrow> int k \<le> e + 1074 \<Longrightarrow>
   scaleUp m e = (m * 2 ^ k, e - int k)"
proof (induction k arbitrary: m e)
  case 0
  then show ?case by (subst scaleUp.simps) simp
next
  case (Suc k)
  have "0 < m" using Suc.prems(1) by (rule scaled_pos)
  then have "m * 2 * 1 \<le> m * 2 * 2 ^ k"
    by (intro mult_left_mono) auto
  with Suc.prems(2) have lt: "m < 2 ^ 52" by simp
  have e: "- 1074 < e" using Suc.prems(3) by simp
  have "scaleUp m e = scaleUp (m * 2) (e - 1)"
    using lt e by (subst scaleUp.simps) simp
  also have "\<dots> = (m * 2 * 2 ^ k, e - 1 - int k)"
    using Suc.prems by (intro Suc.IH) (simp_all add: mult.assoc)
  finally show ?case by (simp add: mult.assoc)
qed

text \<open>
  The value of \<open>binary64\<close> at a positive \<open>x\<close> below \<open>2 ^ 53\<close>, from the exponent \<open>k\<close>
  that brings \<open>x\<close> between \<open>2 ^ 52\<close> and \<open>2 ^ 53\<close>.
\<close>

lemma binary64_eval:
  assumes "2 ^ 52 \<le> x * 2 ^ k" and "x * 2 ^ k < 2 ^ 53" and "k \<le> 1074"
  shows "binary64 x = real_of_int (roundHalfEven (x * 2 ^ k)) / 2 ^ k"
proof -
  have pos: "0 < x" using assms(1) by (rule scaled_pos)
  have "x * 1 \<le> x * 2 ^ k" using pos by (intro mult_left_mono) auto
  with assms(2) have lt: "x < 2 ^ 53" by simp
  have "scaleUp x 0 = (x * 2 ^ k, 0 - int k)"
    using assms by (intro scaleUp_eval) simp_all
  then have "roundMagnitude x = real_of_int (roundHalfEven (x * 2 ^ k)) * 2 powi (- int k)"
    using lt by (simp add: roundMagnitude_def)
  then show ?thesis using pos by (simp add: binary64_def power_int_minus field_simps)
qed

section \<open>Rounding to three decimals\<close>

lemma toFixed3_error: "\<bar>toFixed3 x - x\<bar> \<le> 1 / 2000"
proof (cases "x < 0")
  case True
  define f where "f = real_of_int \<lfloor>(- x) * 1000 + 1 / 2\<rfloor>"
  have "f \<le> (- x) * 1000 + 1 / 2" "(- x) * 1000 + 1 / 2 < f + 1"
    unfolding f_def by linarith+
  moreover have "toFixed3 x = - (f / 1000)"
    using True by (simp add: toFixed3_def f_def)
  ultimately show ?thesis by linarith
next
  case False
  define f where "f = real_of_int \<lfloor>x * 1000 + 1 / 2\<rfloor>"
  have "f \<le> x * 1000 + 1 / 2" "x * 1000 + 1 / 2 < f + 1"
    unfolding f_def by linarith+
  moreover have "toFixed3 x = f / 1000"
    using False by (simp add: toFixed3_def f_def)
  ultimately show ?thesis by linarith
qed

lemma toFixed3_nonneg: "0 \<le> x \<Longrightarrow> 0 \<le> toFixed3 x"
  by (simp add: toFixed3_def)

lemma toFixed3_milli: "\<exists>z::int. toFixed3 x = real_of_int z / 1000"
proof (cases "x < 0")
  case True
  then have "toFixed3 x = real_of_int (- \<lfloor>(- x) * 1000 + 1 / 2\<rfloor>) / 1000"
    by (simp add: toFixed3_def)
  then show ?thesis by blast
next
  case False
  then have "toFixed3 x = real_of_int \<lfloor>x * 1000 + 1 / 2\<rfloor> / 1000"
    by (simp add: toFixed3_def)
  then show ?thesis by blast
qed

lemma parseFixed3_nonneg: "0 \<le> x \<Longrightarrow> 0 \<le> parseFixed3 x"
  unfolding parseFixed3_def by (intro binary64_nonneg toFixed3_nonneg)

lemma parseFixed3_error:
  assumes "0 \<le> x" and "x \<le> 3"
  shows "\<bar>parseFixed3 x - x\<bar> \<le> 1 / 2000 + 1 / 1000000000000000"
proof -
  have t: "\<bar>toFixed3 x - x\<bar> \<le> 1 / 2000" by (rule toFixed3_error)
  have "0 \<le> toFixed3 x" using assms(1) by (rule toFixed3_nonneg)
  moreover have "toFixed3 x \<le> 4" using t assms(2) by linarith
  ultimately have "\<bar>binary64 (toFixed3 x) - toFixed3 x\<bar> \<le> 1 / 1000000000000000"
    by (intro binary64_near) simp
  with t show ?thesis unfolding parseFixed3_def by linarith
qed

section \<open>The attention loops\<close>

lemma validRng_rngOfList:
  "(\<And>x. x \<in> set xs \<Longrightarrow> 0 \<le> x \<and> x < 1) \<Longrightarrow> validRng (rngOfList xs)"
  by (simp add: validRng_def rngOfList_def)

lemma jitter_range:
  assumes "0 \<le> r" and "r < 1" and "0 \<le> c" and "c \<le> 1"
  shows "0 \<le> binary64 (r * binary64 c) \<and> binary64 (r * binary64 c) \<le> c + 2 / 1000000000000000"
proof -
  have c: "0 \<le> binary64 c \<and> \<bar>binary64 c - c\<bar> \<le> 1 / 1000000000000000"
    using assms(3,4) by (intro binary64_range) simp_all
  have "r * binary64 c \<le> 1 * binary64 c"
    using assms(2) c by (intro mult_right_mono) simp_all
  then have p1: "r * binary64 c \<le> c + 1 / 1000000000000000" using c by linarith
  have p0: "0 \<le> r * binary64 c" using assms(1) c by (intro mult_nonneg_nonneg) simp_all
  have p4: "r * binary64 c \<le> 4" using p1 assms(4) by linarith
  have "0 \<le> binary64 (r * binary64 c) \<and>
      \<bar>binary64 (r * binary64 c) - r * binary64 c\<bar> \<le> 1 / 1000000000000000"
    using p0 p4 by (rule binary64_range)
  with p1 show ?thesis by linarith
qed

lemma biased_range:
  assumes "0 \<le> w" and "w \<le> 3 / 10" and "0 \<le> c" and "c \<le> 7 / 10"
  shows "c - 2 / 1000000000000000 \<le> binary64 (w + binary64 c) \<and>
         binary64 (w + binary64 c) \<le> w + c + 2 / 1000000000000000"
proof -
  have c: "0 \<le> binary64 c \<and> \<bar>binary64 c - c\<bar> \<le> 1 / 1000000000000000"
    using assms(3,4) by (intro binary64_range) simp_all
  have p0: "0 \<le> w + binary64 c" using assms(1) c by linarith
  have p4: "w + binary64 c \<le> 4" using assms(2,4) c by linarith
  have "0 \<le> binary64 (w + binary64 c) \<and>
      \<bar>binary64 (w + binary64 c) - (w + binary64 c)\<bar> \<le> 1 / 1000000000000000"
    using p0 p4 by (rule binary64_range)
  with c assms(1) show ?thesis by linarith
qed

lemma attentionWeight_range:
  assumes "validRng rnd"
  shows "0 \<le> fst (attentionWeight rnd k tokenList i j) \<and>
         fst (attentionWeight rnd k tokenList i j) \<le> 1 \<and>
         (i = j \<longrightarrow> 69 / 100 \<le> fst (attentionWeight rnd k tokenList i j))"
proof -
  have r: "0 \<le> rnd n \<and> rnd n < 1" for n
    using assms by (simp add: validRng_def)
  define weight where "weight = binary64 (rnd k * binary64 (1 / 10))"
  define extra where "extra = binary64 (rnd (k + 2) * binary64 (1 / 5))"
  define v7 where "v7 = binary64 (weight + binary64 (7 / 10))"
  define v2 where "v2 = binary64 (weight + binary64 (1 / 5))"
  define v3 where "v3 = binary64 (weight + binary64 (3 / 10))"
  define vx where "vx = binary64 (weight + extra)"
  have w: "0 \<le> weight \<and> weight \<le> 1 / 10 + 2 / 1000000000000000"
    unfolding weight_def using r [of k] by (intro jitter_range) simp_all
  have x: "0 \<le> extra \<and> extra \<le> 1 / 5 + 2 / 1000000000000000"
    unfolding extra_def using r [of "k + 2"] by (intro jitter_range) simp_all
  have w3: "weight \<le> 3 / 10" using w by linarith
  have "7 / 10 - 2 / 1000000000000000 \<le> v7 \<and> v7 \<le> weight + 7 / 10 + 2 / 1000000000000000"
    unfolding v7_def using w w3 by (intro biased_range) simp_all
  with w have b7: "69 / 100 \<le> v7 \<and> v7 \<le> 1" by linarith
  have "1 / 5 - 2 / 1000000000000000 \<le> v2 \<and> v2 \<le> weight + 1 / 5 + 2 / 1000000000000000"
    unfolding v2_def using w w3 by (intro biased_range) simp_all
  with w have b2: "0 \<le> v2 \<and> v2 \<le> 1" by linarith
  have "3 / 10 - 2 / 1000000000000000 \<le> v3 \<and> v3 \<le> weight + 3 / 10 + 2 / 1000000000000000"
    unfolding v3_def using w w3 by (intro biased_range) simp_all
  with w have b3: "0 \<le> v3 \<and> v3 \<le> 1" by linarith
  have p0: "0 \<le> weight + extra" and p4: "weight + extra \<le> 4" using w x by linarith+
  have "0 \<le> vx \<and> \<bar>vx - (weight + extra)\<bar> \<le> 1 / 1000000000000000"
    unfolding vx_def using p0 p4 by (rule binary64_range)
  with w x have bx: "0 \<le> vx \<and> vx \<le> 1" by linarith
  have bw: "0 \<le> weight \<and> weight \<le> 1" using w by linarith
  have mem: "fst (attentionWeight rnd k tokenList i j) \<in> {v7, v2, v3, vx, weight}"
    by (simp add: attentionWeight_def Let_def weight_def extra_def v7_def v2_def v3_def vx_def)
  have diag: "i = j \<Longrightarrow> fst (attentionWeight rnd k tokenList i j) = v7"
    by (simp add: attentionWeight_def Let_def weight_def v7_def)
  from mem b7 b2 b3 bx bw
  have "0 \<le> fst (attentionWeight rnd k tokenList i j) \<and>
        fst (attentionWeight rnd k tokenList i j) \<le> 1"
    by auto
  with diag b7 show ?thesis by auto
qed

lemma rawWeights_length: "length (fst (rawWeights rnd tokenList i j k)) = length tokenList - j"
proof (induction rnd tokenList i j k rule: rawWeights.induct)
  case (1 rnd tokenList i j k)
  show ?case
  proof (cases "j < length tokenList")
    case True
    with 1 show ?thesis
      by (subst rawWeights.simps) (auto split: prod.splits)
  next
    case False
    then show ?thesis by (subst rawWeights.simps) simp
  qed
qed

lemma rawWeights_range:
  "validRng rnd \<Longrightarrow> w \<in> set (fst (rawWeights rnd tokenList i j k)) \<Longrightarrow> 0 \<le> w \<and> w \<le> 1"
proof (induction rnd tokenList i j k rule: rawWeights.induct)
  case (1 rnd tokenList i j k)
  show ?case
  proof (cases "j < length tokenList")
    case True
    obtain w0 k' where a: "attentionWeight rnd k tokenList i j = (w0, k')"
      by (cases "attentionWeight rnd k tokenList i j")
    obtain ws k'' where r: "rawWeights rnd tokenList i (j + 1) k' = (ws, k'')"
      by (cases "rawWeights rnd tokenList i (j + 1) k'")
    have eq: "fst (rawWeights rnd tokenList i j k) = w0 # ws"
      using True a r by (subst rawWeights.simps) simp
    have "0 \<le> w0 \<and> w0 \<le> 1"
      using attentionWeight_range [OF "1.prems"(1), of k tokenList i j] a by simp
    moreover have "w \<in> set ws \<Longrightarrow> 0 \<le> w \<and> w \<le> 1"
      using "1.IH" [OF True a [symmetric] "1.prems"(1)] r by simp
    ultimately show ?thesis using "1.prems"(2) eq by auto
  next
    case False
    then show ?thesis using "1.prems"(2) by (subst (asm) rawWeights.simps) simp
  qed
qed

lemma sum_list_nonneg_real: "(\<And>w. w \<in> set ws \<Longrightarrow> (0::real) \<le> w) \<Longrightarrow> 0 \<le> sum_list ws"
  by (induction ws) auto

lemma rawWeights_sum:
  "validRng rnd \<Longrightarrow> j \<le> i \<Longrightarrow> i < length tokenList \<Longrightarrow>
   69 / 100 \<le> sum_list (fst (rawWeights rnd tokenList i j k))"
proof (induction rnd tokenList i j k rule: rawWeights.induct)
  case (1 rnd tokenList i j k)
  have jlt: "j < length tokenList" using "1.prems" by simp
  obtain w0 k' where a: "attentionWeight rnd k tokenList i j = (w0, k')"
    by (cases "attentionWeight rnd k tokenList i j")
  obtain ws k'' where r: "rawWeights rnd tokenList i (j + 1) k' = (ws, k'')"
    by (cases "rawWeights rnd tokenList i (j + 1) k'")
  have eq: "fst (rawWeights rnd tokenList i j k) = w0 # ws"
    using jlt a r by (subst rawWeights.simps) simp
  have w0: "0 \<le> w0"
    using attentionWeight_range [OF "1.prems"(1), of k tokenList i j] a by simp
  have ws: "0 \<le> sum_list ws"
    using rawWeights_range [OF "1.prems"(1), of _ tokenList i "j + 1" k'] r
    by (intro sum_list_nonneg_real) simp
  show ?case
  proof (cases "j = i")
    case True
    have "69 / 100 \<le> w0"
      using attentionWeight_range [OF "1.prems"(1), of k tokenList i i] a True by simp
    with ws eq show ?thesis by simp
  next
    case False
    then have "j + 1 \<le> i" using "1.prems" by simp
    from "1.IH" [OF jlt a [symmetric] "1.prems"(1) this "1.prems"(3)] r
    have "69 / 100 \<le> sum_list ws" by simp
    with w0 eq show ?thesis by simp
  qed
qed

lemma floatSum_Cons: "floatSum s (w # ws) = floatSum (binary64 (s + w)) ws"
  by (simp add: floatSum_def)

lemma floatSum_snoc: "floatSum s (ws @ [w]) = binary64 (floatSum s ws + w)"
  by (simp add: floatSum_def)

text \<open>
  The invariant of the inner loop: \<open>row\<close> holds the rounded weights and \<open>rowsum\<close>
  the sum of the weights before rounding.
\<close>

lemma attentionRow_rawWeights:
  "attentionRow rnd tokenList i j row rowsum k =
     (map (\<lambda>w. parseFixed3 (binary64
            (w / floatSum rowsum (fst (rawWeights rnd tokenList i j k)))))
        (row @ map parseFixed3 (fst (rawWeights rnd tokenList i j k))),
      snd (rawWeights rnd tokenList i j k))"
proof (induction rnd tokenList i j row rowsum k rule: attentionRow.induct)
  case (1 rnd tokenList i j row rowsum k)
  show ?case
  proof (cases "j < length tokenList")
    case True
    obtain w0 k' where a: "attentionWeight rnd k tokenList i j = (w0, k')"
      by (cases "attentionWeight rnd k tokenList i j")
    obtain ws k'' where r: "rawWeights rnd tokenList i (j + 1) k' = (ws, k'')"
      by (cases "rawWeights rnd tokenList i (j + 1) k'")
    have eq: "rawWeights rnd tokenList i j k = (w0 # ws, k'')"
      using True a r by (subst rawWeights.simps) simp
    have "attentionRow rnd tokenList i j row rowsum k =
          attentionRow rnd tokenList i (j + 1) (row @ [parseFixed3 w0])
            (binary64 (rowsum + w0)) k'"
      using True a by (subst attentionRow.simps) simp
    also have "\<dots> = (map (\<lambda>w. parseFixed3 (binary64
                           (w / floatSum (binary64 (rowsum + w0)) ws)))
                        ((row @ [parseFixed3 w0]) @ map parseFixed3 ws), k'')"
      using "1.IH" [OF True a [symmetric]] r by simp
    finally show ?thesis using eq by (simp add: floatSum_Cons)
  next
    case False
    then have "rawWeights rnd tokenList i j k = ([], k)"
      by (subst rawWeights.simps) simp
    with False show ?thesis by (subst attentionRow.simps) (simp add: floatSum_def)
  qed
qed

lemma attentionRow_normalize:
  "attentionRow rnd tokenList i 0 [] 0 k =
     (normalizeByRawSum (fst (rawWeights rnd tokenList i 0 k)),
      snd (rawWeights rnd tokenList i 0 k))"
  by (simp add: attentionRow_rawWeights normalizeByRawSum_def comp_def)

lemma attentionRows_closed:
  "i \<le> length tokenList \<Longrightarrow>
   attentionRows rnd tokenList i weights (rowStart rnd tokenList i k0) =
     (weights @ map (\<lambda>a. fst (attentionRow rnd tokenList a 0 [] 0 (rowStart rnd tokenList a k0)))
                  [i..<length tokenList],
      rowStart rnd tokenList (length tokenList) k0)"
proof (induction "length tokenList - i" arbitrary: i weights)
  case 0
  then have "i = length tokenList" by simp
  then show ?case by (subst attentionRows.simps) simp
next
  case (Suc d)
  then have lt: "i < length tokenList" by simp
  obtain r where a: "attentionRow rnd tokenList i 0 [] 0 (rowStart rnd tokenList i k0) =
      (r, rowStart rnd tokenList (Suc i) k0)"
    by (cases "attentionRow rnd tokenList i 0 [] 0 (rowStart rnd tokenList i k0)") simp
  have "attentionRows rnd tokenList i weights (rowStart rnd tokenList i k0) =
        attentionRows rnd tokenList (Suc i) (weights @ [r]) (rowStart rnd tokenList (Suc i) k0)"
    using lt by (subst attentionRows.simps) (simp del: rowStart.simps add: a)
  also have "\<dots> = ((weights @ [r]) @
        map (\<lambda>a. fst (attentionRow rnd tokenList a 0 [] 0 (rowStart rnd tokenList a k0)))
          [Suc i..<length tokenList],
        rowStart rnd tokenList (length tokenList) k0)"
    using Suc.hyps(1) [of "Suc i"] Suc.hyps(2) lt by simp
  finally show ?case using lt by (simp del: rowStart.simps add: a upt_conv_Cons)
qed

lemma generateAttentionWeights_closed:
  "generateAttentionWeights rnd k tokenList =
     (map (\<lambda>i. normalizeByRawSum (fst (rawWeights rnd tokenList i 0 (rowStart rnd tokenList i k))))
        [0..<length tokenList],
      rowStart rnd tokenList (length tokenList) k)"
  using attentionRows_closed [of 0 tokenList rnd "[]" k]
  by (simp add: generateAttentionWeights_def attentionRow_normalize)

section \<open>Row sums of the attention matrix\<close>

lemma floatSum_nonneg: "(\<And>w. w \<in> set ws \<Longrightarrow> 0 \<le> w) \<Longrightarrow> 0 \<le> floatSum 0 ws"
proof (induction ws rule: rev_induct)
  case Nil
  show ?case by (simp add: floatSum_def)
next
  case (snoc w ws)
  have "0 \<le> floatSum 0 ws" by (rule snoc.IH) (simp add: snoc.prems)
  moreover have "0 \<le> w" by (simp add: snoc.prems)
  ultimately have "0 \<le> binary64 (floatSum 0 ws + w)" by (intro binary64_nonneg) simp
  then show ?case by (simp add: floatSum_snoc)
qed

text \<open>
  The error of the running sum of \<open>k\<close> non-negative weights: each addition adds
  one rounding error to those made before.
\<close>

lemma floatSum_error:
  assumes "\<And>w. w \<in> set ws \<Longrightarrow> 0 \<le> w" and "length ws \<le> 2 ^ 32"
  shows "\<bar>floatSum 0 ws - sum_list ws\<bar>
           \<le> 2 * real (length ws) * (sum_list ws / 9007199254740992 + 1 / 2 ^ 1075)"
  using assms
proof (induction ws rule: rev_induct)
  case Nil
  show ?case by (simp add: floatSum_def)
next
  case (snoc w ws)
  define eta :: real where "eta = 1 / 2 ^ 1075"
  define S where "S = floatSum 0 ws"
  define P where "P = sum_list ws"
  define K where "K = real (length ws)"
  define X where "X = P / 9007199254740992 + eta"
  define Y where "Y = (P + w) / 9007199254740992 + eta"
  define D where "D = 2 * (K * X)"
  define D' where "D' = 2 * (K * Y) + 2 * Y"
  have eta: "0 \<le> eta" by (simp add: eta_def)
  have nn: "\<And>v. v \<in> set ws \<Longrightarrow> 0 \<le> v" by (simp add: snoc.prems)
  have w: "0 \<le> w" by (simp add: snoc.prems)
  have len: "length ws \<le> 2 ^ 32" using snoc.prems(2) by simp
  have S: "0 \<le> S" unfolding S_def using nn by (rule floatSum_nonneg)
  have P: "0 \<le> P" unfolding P_def using nn by (rule sum_list_nonneg_real)
  have K: "0 \<le> K" "K \<le> 4294967296"
    using len by (simp_all add: K_def)
  have IH: "\<bar>S - P\<bar> \<le> D"
    using snoc.IH [OF nn len] by (simp add: S_def P_def K_def D_def X_def eta_def algebra_simps)
  have "\<bar>binary64 (S + w) - (S + w)\<bar> \<le> \<bar>S + w\<bar> / 2 ^ 53 + 1 / 2 ^ 1075"
    by (rule binary64_error)
  then have e1: "\<bar>binary64 (S + w) - (S + w)\<bar> \<le> (S + w) / 9007199254740992 + eta"
    using S w by (simp add: eta_def)
  have X: "0 \<le> X" and XY: "X \<le> Y" using P eta w by (simp_all add: X_def Y_def)
  have m1: "K * X \<le> K * Y" using XY K(1) by (rule mult_left_mono)
  have "2 * K / 9007199254740992 \<le> 1" using K by simp
  then have "(2 * K / 9007199254740992) * X \<le> 1 * X" using X by (rule mult_right_mono)
  then have m2: "D / 9007199254740992 \<le> X" by (simp add: D_def)
  have f3: "D + D / 9007199254740992 + Y \<le> D'"
    using m1 m2 XY by (simp add: D_def D'_def)
  have Yeq: "(S + w) / 9007199254740992 \<le> Y - eta + D / 9007199254740992"
  proof -
    have "S \<le> P + D" using IH by linarith
    then have "(S + w) / 9007199254740992 \<le> (P + D + w) / 9007199254740992"
      by (intro divide_right_mono) simp_all
    then show ?thesis by (simp add: Y_def add_divide_distrib)
  qed
  have "\<bar>binary64 (S + w) - (P + w)\<bar> \<le> D'"
    using e1 IH f3 Yeq by linarith
  moreover have "D' = 2 * (K + 1) * Y" by (simp add: D'_def algebra_simps)
  ultimately have final: "\<bar>binary64 (S + w) - (P + w)\<bar>
      \<le> 2 * (K + 1) * ((P + w) / 9007199254740992 + eta)"
    by (simp add: Y_def)
  have g1: "real (length (ws @ [w])) = K + 1" by (simp add: K_def)
  have g2: "sum_list (ws @ [w]) = P + w" by (simp add: P_def)
  have g3: "floatSum 0 (ws @ [w]) = binary64 (S + w)" by (simp add: floatSum_snoc S_def)
  show ?case unfolding g1 g2 g3 eta_def [symmetric] by (rule final)
qed

lemma floatSum_close:
  assumes "\<And>w. w \<in> set ws \<Longrightarrow> 0 \<le> w" and "length ws \<le> 2 ^ 32"
    and "69 / 100 \<le> sum_list ws"
  shows "68 / 100 \<le> floatSum 0 ws \<and> \<bar>sum_list ws - floatSum 0 ws\<bar> \<le> floatSum 0 ws / 500000"
proof -
  define S where "S = floatSum 0 ws"
  define P where "P = sum_list ws"
  define K where "K = real (length ws)"
  have K: "0 \<le> K" "K \<le> 4294967296"
    using assms(2) by (simp_all add: K_def)
  have P: "69 / 100 \<le> P" using assms(3) by (simp add: P_def)
  have "\<bar>S - P\<bar> \<le> 2 * K * (P / 9007199254740992 + 1 / 2 ^ 1075)"
    unfolding S_def P_def K_def using assms(1,2) by (rule floatSum_error)
  also have "\<dots> = (2 * K / 9007199254740992) * P + (2 * K) * (1 / 2 ^ 1075)"
    by (simp add: algebra_simps)
  also have "\<dots> \<le> (1 / 1048576) * P + 8589934592 * (1 / 2 ^ 1075)"
  proof (intro add_mono mult_right_mono)
    show "2 * K / 9007199254740992 \<le> 1 / 1048576" using K by simp
    show "0 \<le> P" using P by simp
    show "2 * K \<le> 8589934592" using K by simp
    show "(0::real) \<le> 1 / 2 ^ 1075" by simp
  qed
  also have "\<dots> \<le> P / 1048576 + 1 / 1000000000" by simp
  finally have "\<bar>S - P\<bar> \<le> P / 1048576 + 1 / 1000000000" .
  with P have "68 / 100 \<le> S \<and> \<bar>P - S\<bar> \<le> S / 500000" by linarith
  then show ?thesis by (simp add: S_def P_def)
qed

lemma normalize_entry_error:
  assumes "0 \<le> w" and "w \<le> 1" and "68 / 100 \<le> S"
  shows "\<bar>parseFixed3 (binary64 (parseFixed3 w / S)) - w / S\<bar>
           \<le> 1237 / 1000000"
proof -
  define r where "r = parseFixed3 w"
  define q where "q = binary64 (r / S)"
  have Spos: "0 < S" using assms(3) by simp
  have r0: "0 \<le> r" unfolding r_def using assms(1) by (rule parseFixed3_nonneg)
  have re: "\<bar>r - w\<bar> \<le> 1 / 2000 + 1 / 1000000000000000"
    unfolding r_def using assms(1,2) by (intro parseFixed3_error) simp_all
  have inv: "c / S \<le> c / (68 / 100)" if "0 \<le> c" for c
    using that assms(3) by (intro divide_left_mono) simp_all
  have d0: "0 \<le> r / S" using r0 Spos by simp
  have d1: "r / S \<le> r / (68 / 100)" using r0 by (rule inv)
  have d1': "r / S \<le> r * (25 / 17)" using d1 by simp
  have d4: "r / S \<le> 2" using d1' re assms(2) by linarith
  have "\<bar>r / S - w / S\<bar> = \<bar>r - w\<bar> / S"
    using Spos by (simp add: diff_divide_distrib [symmetric])
  also have "\<dots> \<le> \<bar>r - w\<bar> / (68 / 100)" by (rule inv) simp
  finally have "\<bar>r / S - w / S\<bar> \<le> \<bar>r - w\<bar> / (68 / 100)" .
  then have d2: "\<bar>r / S - w / S\<bar> \<le> \<bar>r - w\<bar> * (25 / 17)" by simp
  have q: "0 \<le> q \<and> \<bar>q - r / S\<bar> \<le> 1 / 1000000000000000"
    unfolding q_def using d0 d4 by (intro binary64_range) simp_all
  have q0: "0 \<le> q" using q by simp
  have q3: "q \<le> 3" using q d4 by linarith
  have "\<bar>parseFixed3 q - q\<bar> \<le> 1 / 2000 + 1 / 1000000000000000"
    using q0 q3 by (rule parseFixed3_error)
  moreover have "\<bar>r - w\<bar> * (25 / 17) \<le> (1 / 2000 + 1 / 1000000000000000) * (25 / 17)"
    using re by (intro mult_right_mono) simp_all
  then have "\<bar>r / S - w / S\<bar> \<le> 736 / 1000000" using d2 by simp
  moreover have "\<bar>q - r / S\<bar> \<le> 1 / 1000000000000000" using q by simp
  ultimately have "\<bar>parseFixed3 q - w / S\<bar> \<le> 1237 / 1000000"
    by linarith
  then show ?thesis by (simp add: q_def r_def)
qed

lemma sum_list_error:
  "(\<And>w. w \<in> set ws \<Longrightarrow> \<bar>f w - g w\<bar> \<le> c) \<Longrightarrow>
   \<bar>sum_list (map f ws) - sum_list (map g ws)\<bar> \<le> real (length ws) * (c::real)"
proof (induction ws)
  case Nil
  show ?case by simp
next
  case (Cons w ws)
  have "\<bar>sum_list (map f ws) - sum_list (map g ws)\<bar> \<le> real (length ws) * c"
    by (rule Cons.IH) (simp add: Cons.prems)
  moreover have "\<bar>f w - g w\<bar> \<le> c" by (simp add: Cons.prems)
  moreover have "real (length (w # ws)) * c = real (length ws) * c + c"
    by (simp add: algebra_simps)
  ultimately show ?case by simp
qed

lemma sum_list_divide: "sum_list (map (\<lambda>w. w / S) ws) = sum_list ws / (S::real)"
  by (induction ws) (simp_all add: add_divide_distrib)

text \<open>
  A row sum differs from 1 by the two roundings to three decimals of each entry,
  the first one divided by the row sum of at least 0.68, and by rounding errors of
  the arithmetic that are far smaller.
\<close>

lemma normalizeByRawSum_sum:
  assumes "\<And>w. w \<in> set ws \<Longrightarrow> 0 \<le> w \<and> w \<le> 1" and "69 / 100 \<le> sum_list ws"
    and "length ws \<le> 2 ^ 32"
  shows "\<bar>sum_list (normalizeByRawSum ws) - 1\<bar> \<le> real (length ws) / 800"
proof -
  define S where "S = floatSum 0 ws"
  define P where "P = sum_list ws"
  define n where "n = real (length ws)"
  have "ws \<noteq> []" using assms(2) by auto
  then have n: "1 \<le> n" by (cases ws) (simp_all add: n_def)
  have close: "68 / 100 \<le> S \<and> \<bar>P - S\<bar> \<le> S / 500000"
    unfolding S_def P_def using assms by (intro floatSum_close) simp_all
  then have Spos: "0 < S" by simp
  have "\<bar>P / S - 1\<bar> = \<bar>P - S\<bar> / S"
    using Spos by (simp add: diff_divide_distrib [symmetric] field_simps)
  also have "\<dots> \<le> (S / 500000) / S"
    using close Spos by (intro divide_right_mono) simp_all
  finally have one: "\<bar>P / S - 1\<bar> \<le> 1 / 500000" using Spos by simp
  have "\<bar>sum_list (map (\<lambda>w. parseFixed3 (binary64 (parseFixed3 w / S))) ws)
          - sum_list (map (\<lambda>w. w / S) ws)\<bar>
        \<le> real (length ws) * (1237 / 1000000)"
    using assms(1) close by (intro sum_list_error normalize_entry_error) simp_all
  then have "\<bar>sum_list (normalizeByRawSum ws) - P / S\<bar>
        \<le> n * (1237 / 1000000)"
    by (simp add: normalizeByRawSum_def S_def P_def n_def sum_list_divide)
  with one n have "\<bar>sum_list (normalizeByRawSum ws) - 1\<bar> \<le> n / 800" by linarith
  then show ?thesis by (simp add: n_def)
qed

lemma normalizeByRawSum_nonneg:
  assumes "\<And>w. w \<in> set ws \<Longrightarrow> 0 \<le> w" and "e \<in> set (normalizeByRawSum ws)"
  shows "0 \<le> e"
proof -
  have S: "0 \<le> floatSum 0 ws" using assms(1) by (rule floatSum_nonneg)
  obtain w where w: "w \<in> set ws"
    and e: "e = parseFixed3 (binary64 (parseFixed3 w / floatSum 0 ws))"
    using assms(2) by (auto simp: normalizeByRawSum_def)
  have "0 \<le> parseFixed3 w" using assms(1) [OF w] by (rule parseFixed3_nonneg)
  then have "0 \<le> parseFixed3 w / floatSum 0 ws" using S by simp
  then have "0 \<le> binary64 (parseFixed3 w / floatSum 0 ws)" by (rule binary64_nonneg)
  then show ?thesis unfolding e by (rule parseFixed3_nonneg)
qed

text \<open>
  Claim C1, as amended. For a random sequence with values in \<open>[0, 1)\<close> and a list of
  \<open>n\<close> tokens (at most \<open>2 ^ 32\<close>, more than an array can hold),
  \<open>generateAttentionWeights\<close> returns \<open>n\<close> rows of \<open>n\<close> entries, every entry is at
  least 0, and every row sums to 1 within \<open>0.00125 n\<close>. The entries are the numbers
  the code computes, with every rounding of its arithmetic; the sum of a row is
  their exact sum.
\<close>

theorem attention_rows_bounded:
  assumes "validRng rnd" and "length tokenList \<le> 2 ^ 32"
  shows "length (fst (generateAttentionWeights rnd k tokenList)) = length tokenList \<and>
    (\<forall>row \<in> set (fst (generateAttentionWeights rnd k tokenList)).
       length row = length tokenList \<and> (\<forall>w \<in> set row. 0 \<le> w) \<and>
       \<bar>sum_list row - 1\<bar> \<le> real (length tokenList) / 800)"
proof -
  have rows: "length row = length tokenList \<and> (\<forall>w \<in> set row. 0 \<le> w) \<and>
       \<bar>sum_list row - 1\<bar> \<le> real (length tokenList) / 800"
    if "row \<in> set (fst (generateAttentionWeights rnd k tokenList))" for row
  proof -
    from that obtain i where i: "i < length tokenList"
      and row: "row = normalizeByRawSum (fst (rawWeights rnd tokenList i 0 (rowStart rnd tokenList i k)))"
      by (auto simp: generateAttentionWeights_closed)
    define ws where "ws = fst (rawWeights rnd tokenList i 0 (rowStart rnd tokenList i k))"
    have len: "length ws = length tokenList" by (simp add: ws_def rawWeights_length)
    have range: "\<And>w. w \<in> set ws \<Longrightarrow> 0 \<le> w \<and> w \<le> 1"
      unfolding ws_def using rawWeights_range [OF assms(1)] by blast
    have S: "69 / 100 \<le> sum_list ws"
      unfolding ws_def using rawWeights_sum [OF assms(1) _ i, of 0] by simp
    have "length row = length tokenList"
      using len by (simp add: row ws_def normalizeByRawSum_def)
    moreover have "\<forall>w \<in> set row. 0 \<le> w"
      using normalizeByRawSum_nonneg [of ws] range by (auto simp: row ws_def)
    moreover have "\<bar>sum_list row - 1\<bar> \<le> real (length tokenList) / 800"
      using normalizeByRawSum_sum [OF range S] len assms(2) by (simp add: row ws_def)
    ultimately show ?thesis by blast
  qed
  have "length (fst (generateAttentionWeights rnd k tokenList)) = length tokenList"
    by (simp add: generateAttentionWeights_closed)
  with rows show ?thesis by blast
qed

section \<open>Two attention matrices\<close>

text \<open>
  The numbers that the code computes for the random values 0.0252 and 0.2552 with two
  tokens, and for the random value 0.004 with one token: each lemma is one rounding.
\<close>

lemma double_0_0252: "binary64 (63 / 2500) = 226981421219473 / 9007199254740992"
  by (subst binary64_eval [where k = 58]) (simp_all add: roundHalfEven_def)

lemma double_0_2552: "binary64 (319 / 1250) = 2298637249809901 / 9007199254740992"
  by (subst binary64_eval [where k = 54]) (simp_all add: roundHalfEven_def)

lemma double_0_1: "binary64 (1 / 10) = 3602879701896397 / 36028797018963968"
  by (subst binary64_eval [where k = 56]) (simp_all add: roundHalfEven_def)

lemma double_0_7: "binary64 (7 / 10) = 3152519739159347 / 4503599627370496"
  by (subst binary64_eval [where k = 53]) (simp_all add: roundHalfEven_def)

lemma double_0_2: "binary64 (1 / 5) = 3602879701896397 / 18014398509481984"
  by (subst binary64_eval [where k = 55]) (simp_all add: roundHalfEven_def)

lemma row_jitter0: "binary64 (817786755219235402654444938781 / 324518553658426726783156020576256) = 5810724383218509 / 2305843009213693952"
  by (subst binary64_eval [where k = 61]) (simp_all add: roundHalfEven_def)

lemma row_weight0: "binary64 (1619900830832804173 / 2305843009213693952) = 6327737620440641 / 9007199254740992"
  by (subst binary64_eval [where k = 53]) (simp_all add: roundHalfEven_def)

lemma row_jitter1: "binary64 (8281713489363049956537446826697 / 324518553658426726783156020576256) = 1838909799847921 / 72057594037927936"
  by (subst binary64_eval [where k = 58]) (simp_all add: roundHalfEven_def)

lemma row_weight1: "binary64 (16250428607433509 / 72057594037927936) = 4062607151858377 / 18014398509481984"
  by (subst binary64_eval [where k = 55]) (simp_all add: roundHalfEven_def)

lemma double_0_703: "binary64 (703 / 1000) = 6332061076082917 / 9007199254740992"
  by (subst binary64_eval [where k = 53]) (simp_all add: roundHalfEven_def)

lemma double_0_226: "binary64 (113 / 500) = 8142508126285857 / 36028797018963968"
  by (subst binary64_eval [where k = 55]) (simp_all add: roundHalfEven_def)

lemma row_sum0: "binary64 (6327737620440641 / 9007199254740992) = 6327737620440641 / 9007199254740992"
  by (subst binary64_eval [where k = 53]) (simp_all add: roundHalfEven_def)

lemma row_sum1: "binary64 (16718082392739659 / 18014398509481984) = 4179520598184915 / 4503599627370496"
  by (subst binary64_eval [where k = 53]) (simp_all add: roundHalfEven_def)

lemma row_quot0: "binary64 (6332061076082917 / 8359041196369830) = 6823047579935043 / 9007199254740992"
  by (subst binary64_eval [where k = 53]) (simp_all add: roundHalfEven_def)

lemma row_quot1: "binary64 (2714169375428619 / 11145388261826440) = 8773876262107083 / 36028797018963968"
  by (subst binary64_eval [where k = 55]) (simp_all add: roundHalfEven_def)

lemma double_0_758: "binary64 (379 / 500) = 853432129386709 / 1125899906842624"
  by (subst binary64_eval [where k = 53]) (simp_all add: roundHalfEven_def)

lemma double_0_244: "binary64 (61 / 250) = 1098878309078401 / 4503599627370496"
  by (subst binary64_eval [where k = 55]) (simp_all add: roundHalfEven_def)

lemma double_0_004: "binary64 (1 / 250) = 1152921504606847 / 288230376151711744"
  by (subst binary64_eval [where k = 60]) (simp_all add: roundHalfEven_def)

lemma one_jitter: "binary64 (4153837486827862419877810830259 / 10384593717069655257060992658440192) = 7378697629483821 / 18446744073709551616"
  by (subst binary64_eval [where k = 64]) (simp_all add: roundHalfEven_def)

lemma one_weight: "binary64 (12920099549226169133 / 18446744073709551616) = 3154321179010295 / 4503599627370496"
  by (subst binary64_eval [where k = 53]) (simp_all add: roundHalfEven_def)

lemma one_sum: "binary64 (3154321179010295 / 4503599627370496) = 3154321179010295 / 4503599627370496"
  by (subst binary64_eval [where k = 53]) (simp_all add: roundHalfEven_def)

lemma one_quot: "binary64 (3152519739159347 / 3154321179010295) = 9002055223184887 / 9007199254740992"
  by (subst binary64_eval [where k = 53]) (simp_all add: roundHalfEven_def)

lemma double_0_999: "binary64 (999 / 1000) = 8998192055486251 / 9007199254740992"
  by (subst binary64_eval [where k = 53]) (simp_all add: roundHalfEven_def)

lemma double_0_7_again: "binary64 (3152519739159347 / 4503599627370496) = 3152519739159347 / 4503599627370496"
  by (subst binary64_eval [where k = 53]) (simp_all add: roundHalfEven_def)

lemma double_1: "binary64 (1) = 1"
  by (subst binary64_eval [where k = 52]) (simp_all add: roundHalfEven_def)

lemma rng_example_valid: "validRng (rngOfList [binary64 (63 / 2500), binary64 (319 / 1250), 1 / 2, 1 / 2])"
  by (rule validRng_rngOfList) (auto simp: double_0_0252 double_0_2552)

lemma attention_example_raw:
  "fst (rawWeights (rngOfList [binary64 (63 / 2500), binary64 (319 / 1250), 1 / 2, 1 / 2]) [''a'', ''b''] 0 0 0) = [6327737620440641 / 9007199254740992, 4062607151858377 / 18014398509481984]"
  by (simp add: rawWeights.simps attentionWeight_def rngOfList_def Let_def
      double_0_0252 double_0_2552 double_0_1 double_0_7 double_0_2
      row_jitter0 row_weight0 row_jitter1 row_weight1)

lemma attention_example_row:
  "normalizeByRawSum [6327737620440641 / 9007199254740992, 4062607151858377 / 18014398509481984] = [binary64 (758 / 1000), binary64 (244 / 1000)]"
  by (simp add: normalizeByRawSum_def parseFixed3_def toFixed3_def floatSum_def
      double_0_703 double_0_226 row_sum0 row_sum1 row_quot0 row_quot1)

lemma attention_example:
  "fst (generateAttentionWeights (rngOfList [binary64 (63 / 2500), binary64 (319 / 1250), 1 / 2, 1 / 2]) 0 [''a'', ''b'']) ! 0
     = [binary64 (758 / 1000), binary64 (244 / 1000)]"
  by (simp add: generateAttentionWeights_closed attention_example_raw attention_example_row)

theorem attention_rows_bounded_witness:
  "validRng (rngOfList [binary64 (63 / 2500), binary64 (319 / 1250), 1 / 2, 1 / 2]) \<and>
   length [''a'', ''b''] \<le> 2 ^ 32 \<and>
   length (fst (generateAttentionWeights (rngOfList [binary64 (63 / 2500), binary64 (319 / 1250), 1 / 2, 1 / 2]) 0 [''a'', ''b''])) = 2 \<and>
   \<bar>sum_list (fst (generateAttentionWeights (rngOfList [binary64 (63 / 2500), binary64 (319 / 1250), 1 / 2, 1 / 2]) 0 [''a'', ''b'']) ! 0) - 1\<bar> \<le> 2 / 800"
proof -
  let ?m = "fst (generateAttentionWeights (rngOfList [binary64 (63 / 2500), binary64 (319 / 1250), 1 / 2, 1 / 2]) 0 [''a'', ''b''])"
  have l: "length [''a'', ''b''] \<le> 2 ^ 32" by simp
  note t = attention_rows_bounded [OF rng_example_valid l, of 0]
  from t have len: "length ?m = 2" by simp
  then have "?m ! 0 \<in> set ?m" by simp
  with t have "\<bar>sum_list (?m ! 0) - 1\<bar> \<le> real (length [''a'', ''b'']) / 800"
    by blast
  then have "\<bar>sum_list (?m ! 0) - 1\<bar> \<le> 2 / 800" by simp
  with len l rng_example_valid show ?thesis by blast
qed

text \<open>
  With two tokens and the random values 0.0252 and 0.2552 the first row is
  \<open>0.758, 0.244\<close>: its sum is more than 1.002, outside the interval from 0.999 to
  1.001.
\<close>

theorem attention_row_sum_counterexample:
  "validRng (rngOfList [binary64 (63 / 2500), binary64 (319 / 1250), 1 / 2, 1 / 2]) \<and>
   fst (generateAttentionWeights (rngOfList [binary64 (63 / 2500), binary64 (319 / 1250), 1 / 2, 1 / 2]) 0 [''a'', ''b'']) ! 0
     = [binary64 (758 / 1000), binary64 (244 / 1000)] \<and>
   \<not> \<bar>sum_list (fst (generateAttentionWeights (rngOfList [binary64 (63 / 2500), binary64 (319 / 1250), 1 / 2, 1 / 2]) 0 [''a'', ''b'']) ! 0) - 1\<bar>
       \<le> 1 / 1000"
  by (simp add: attention_example rng_example_valid double_0_758 double_0_244)

text \<open>
  Claim C7, as amended. Each row is computed by rounding each raw weight to three
  decimals, dividing every rounded entry by the sum of the raw weights of the row
  (\<open>sum += weight\<close> adds the weight before rounding) and rounding the quotient to
  three decimals; the matrix is the list of these rows.
\<close>

theorem attention_divisor_raw_sum:
  "attentionRow rnd tokenList i 0 [] 0 k =
     (normalizeByRawSum (fst (rawWeights rnd tokenList i 0 k)),
      snd (rawWeights rnd tokenList i 0 k)) \<and>
   generateAttentionWeights rnd k tokenList =
     (map (\<lambda>i. normalizeByRawSum (fst (rawWeights rnd tokenList i 0 (rowStart rnd tokenList i k))))
        [0..<length tokenList],
      rowStart rnd tokenList (length tokenList) k)"
  by (rule conjI [OF attentionRow_normalize generateAttentionWeights_closed])

lemma attention_single_raw:
  "fst (rawWeights (rngOfList [binary64 (1 / 250)]) [''a''] 0 0 0) = [3154321179010295 / 4503599627370496]"
  by (simp add: rawWeights.simps attentionWeight_def rngOfList_def Let_def
      double_0_004 double_0_1 double_0_7 one_jitter one_weight)

text \<open>
  With one token and the random value 0.004 the raw weight is 0.7004 and the rounded
  weight 0.7: the code divides 0.7 by 0.7004 and returns 0.999, while the divisor of
  the claim, the sum 0.7 of the rounded weights, gives 1.
\<close>

theorem attention_divisor_counterexample:
  "fst (generateAttentionWeights (rngOfList [binary64 (1 / 250)]) 0 [''a'']) = [[binary64 (999 / 1000)]] \<and>
   map normalizeByRoundedSum [fst (rawWeights (rngOfList [binary64 (1 / 250)]) [''a''] 0 0 0)] = [[1]] \<and>
   binary64 (999 / 1000) < 1"
  by (simp add: generateAttentionWeights_closed attention_single_raw normalizeByRawSum_def
      normalizeByRoundedSum_def parseFixed3_def toFixed3_def floatSum_def Let_def
      double_0_7 one_sum one_quot double_0_999 double_0_7_again double_1)

text \<open>
  Where the exact value is a tie the rounding of the arithmetic decides: for the
  random value 0.125 the weight is just below 0.7125 and is printed as 0.712; for the
  random value 0.6 the product with 5 is 3.
\<close>

lemma tie_jitter: "binary64 (3602879701896397 / 288230376151711744) = 3602879701896397 / 288230376151711744"
  by (subst binary64_eval [where k = 59]) (simp_all add: roundHalfEven_def)

lemma tie_weight: "binary64 (205364143008094605 / 288230376151711744) = 1604407367250739 / 2251799813685248"
  by (subst binary64_eval [where k = 53]) (simp_all add: roundHalfEven_def)

lemma double_0_712: "binary64 (89 / 125) = 3206562934687793 / 4503599627370496"
  by (subst binary64_eval [where k = 53]) (simp_all add: roundHalfEven_def)

lemma tie_sum: "binary64 (1604407367250739 / 2251799813685248) = 1604407367250739 / 2251799813685248"
  by (subst binary64_eval [where k = 53]) (simp_all add: roundHalfEven_def)

lemma tie_quot: "binary64 (3206562934687793 / 3208814734501478) = 4500439206579359 / 4503599627370496"
  by (subst binary64_eval [where k = 53]) (simp_all add: roundHalfEven_def)

lemma double_0_6: "binary64 (3 / 5) = 5404319552844595 / 9007199254740992"
  by (subst binary64_eval [where k = 53]) (simp_all add: roundHalfEven_def)

lemma filler_product: "binary64 (27021597764222975 / 9007199254740992) = 3"
  by (subst binary64_eval [where k = 51]) (simp_all add: roundHalfEven_def)

lemma attention_tie_raw:
  "fst (rawWeights (rngOfList [1 / 8]) [''a''] 0 0 0) = [1604407367250739 / 2251799813685248]"
  by (simp add: rawWeights.simps attentionWeight_def rngOfList_def Let_def
      double_0_1 double_0_7 tie_jitter tie_weight)

lemma attention_tie_example:
  "toFixed3 (1604407367250739 / 2251799813685248) = 712 / 1000 \<and>
   fst (generateAttentionWeights (rngOfList [1 / 8]) 0 [''a'']) = [[binary64 (999 / 1000)]]"
  by (simp add: generateAttentionWeights_closed attention_tie_raw normalizeByRawSum_def
      parseFixed3_def toFixed3_def floatSum_def double_0_712 tie_sum tie_quot double_0_999)

lemma randomPhrase_example: "randomPhrase (binary64 (3 / 5)) = ''Let's see...''"
  by (simp add: randomPhrase_def fillerPhrases_def double_0_6 filler_product)

section \<open>Empty input\<close>

text \<open>
  Claim C8. \<open>tokenizeText\<close> of the empty string is the empty list,
  \<open>generateAttentionWeights\<close> of the empty list is the empty matrix, and
  \<open>generateSimpleOutput\<close> with an empty token list returns the fixed message
  \<open>Start typing to generate output...\<close> for every input text, stage and list of
  embeddings, before any other rule is looked at. None of the three functions has a
  failing branch.
\<close>

theorem empty_input:
  "tokenizeText '''' = [] \<and>
   generateAttentionWeights rnd k [] = ([], k) \<and>
   generateSimpleOutput rnd k now stage input [] currentEmbeddings =
     (''Start typing to generate output...'', k)"
proof (intro conjI)
  show "tokenizeText '''' = []" by code_simp
  show "generateAttentionWeights rnd k [] = ([], k)"
    by (simp add: generateAttentionWeights_def attentionRows.simps)
  show "generateSimpleOutput rnd k now stage input [] currentEmbeddings =
     (''Start typing to generate output...'', k)"
    by (simp add: generateSimpleOutput_def)
qed

section \<open>The embedding generator\<close>


lemma embedTokens_closed:
  "(\<And>t v. embeddingCache t = Some v \<Longrightarrow> v = embeddingVector (tokenHash t) dimension) \<Longrightarrow>
   embedTokens dimension embeddingCache tokenList =
     map (\<lambda>t. \<lparr>token = t, vector = embeddingVector (tokenHash t) dimension\<rparr>) tokenList"
proof (induction tokenList arbitrary: embeddingCache)
  case Nil
  show ?case by simp
next
  case (Cons tok rest)
  show ?case
  proof (cases "embeddingCache tok")
    case None
    have "embedTokens dimension (embeddingCache(tok \<mapsto> embeddingVector (tokenHash tok) dimension)) rest =
          map (\<lambda>t. \<lparr>token = t, vector = embeddingVector (tokenHash t) dimension\<rparr>) rest"
      by (rule Cons.IH) (use Cons.prems in \<open>auto split: if_splits\<close>)
    with None show ?thesis by (simp add: Let_def)
  next
    case (Some v)
    have "embedTokens dimension embeddingCache rest =
          map (\<lambda>t. \<lparr>token = t, vector = embeddingVector (tokenHash t) dimension\<rparr>) rest"
      by (rule Cons.IH) (use Cons.prems in auto)
    with Some Cons.prems [OF Some] show ?thesis by simp
  qed
qed

lemma generateEmbeddings_closed:
  "generateEmbeddings tokenList dimension =
     map (\<lambda>t. \<lparr>token = t, vector = embeddingVector (tokenHash t) dimension\<rparr>) tokenList"
  unfolding generateEmbeddings_def by (rule embedTokens_closed) simp


text \<open>
  Claim C4. \<open>generateEmbeddings\<close> returns one record for each token of the list, in
  the order of the list, record \<open>i\<close> carrying token \<open>i\<close>; two records of equal
  tokens carry equal vectors.
\<close>

theorem embed_one_record_per_token:
  "length (generateEmbeddings tokenList dimension) = length tokenList \<and>
   map token (generateEmbeddings tokenList dimension) = tokenList \<and>
   (\<forall>i < length tokenList. \<forall>j < length tokenList.
      tokenList ! i = tokenList ! j \<longrightarrow>
      vector (generateEmbeddings tokenList dimension ! i) =
      vector (generateEmbeddings tokenList dimension ! j))"
  by (simp add: generateEmbeddings_closed comp_def)

theorem embed_one_record_per_token_witness:
  "(0::nat) < length [''a'', ''b'', ''a''] \<and> (2::nat) < length [''a'', ''b'', ''a''] \<and>
   [''a'', ''b'', ''a''] ! 0 = [''a'', ''b'', ''a''] ! 2 \<and>
   vector (generateEmbeddings [''a'', ''b'', ''a''] 8 ! 0) =
   vector (generateEmbeddings [''a'', ''b'', ''a''] 8 ! 2)"
proof -
  have a: "(0::nat) < length [''a'', ''b'', ''a'']" and b: "(2::nat) < length [''a'', ''b'', ''a'']"
    and c: "[''a'', ''b'', ''a''] ! 0 = [''a'', ''b'', ''a''] ! 2"
    by simp_all
  from embed_one_record_per_token [of "[''a'', ''b'', ''a'']" 8] a b c
  have "vector (generateEmbeddings [''a'', ''b'', ''a''] 8 ! 0) =
        vector (generateEmbeddings [''a'', ''b'', ''a''] 8 ! 2)"
    by blast
  with a b c show ?thesis by blast
qed

lemma runEffects_embeddingDimension:
  "embeddingDimension (runEffects rnd now prev s) = embeddingDimension s"
  by (simp add: runEffects_def advanceEffect_def recomputeEffect_def Let_def)

text \<open>
  Claim C10. For a dimension \<open>d \<le> 0\<close> \<open>generateEmbeddings\<close> returns one record for
  each token, with an empty vector; no branch fails and the dimension is not moved
  into the range 4 to 20. The handler of the dimension control stores the value it
  is given as it is: only the control itself (\<open>min="4" max="20"\<close>) bounds it.
\<close>

theorem embed_nonpositive_dimension:
  "d \<le> 0 \<Longrightarrow>
   generateEmbeddings tokenList d = map (\<lambda>t. \<lparr>token = t, vector = []\<rparr>) tokenList \<and>
   embeddingDimension (step rnd now (DimensionChange d) s) = d"
  by (simp add: generateEmbeddings_closed embeddingVector_def step_def
      runEffects_embeddingDimension handleEmbeddingDimensionChange_def Let_def)

theorem embed_nonpositive_dimension_witness:
  "(-3::int) \<le> 0 \<and>
   generateEmbeddings [''the'', ''fox''] (-3) =
     [\<lparr>token = ''the'', vector = []\<rparr>, \<lparr>token = ''fox'', vector = []\<rparr>] \<and>
   embeddingDimension (step (rngOfList []) ''12:00:00'' (DimensionChange (-3)) defaultState) = -3"
  using embed_nonpositive_dimension [of "-3" "[''the'', ''fox'']" "rngOfList []" "''12:00:00''" defaultState]
  by simp

section \<open>The output generator\<close>

text \<open>
  Claim C5, as amended. For an input whose lower-cased form contains \<open>name\<close> and
  neither \<open>hello\<close> nor \<open>question\<close>, and a non-empty token list,
  \<open>generateSimpleOutput\<close> returns the reply of the \<open>name\<close> branch when the list has
  at least three tokens or the stage is not the last one; with more than seven
  tokens the reply is followed by \<open>A lot to think about!\<close> when the random value is
  above 0.5. With fewer than three tokens at the last stage it returns the message
  \<open>Input is a bit short. Could you elaborate?\<close> instead.
\<close>

theorem name_reply:
  assumes "str_includes (toLowerCase input) ''name''"
    and "\<not> str_includes (toLowerCase input) ''hello''"
    and "\<not> str_includes (toLowerCase input) ''question''"
    and "currentTokens \<noteq> []"
  shows "fst (generateSimpleOutput rnd k now stage input currentTokens currentEmbeddings) =
     (if length currentTokens < 3 \<and> stage = 4
        then ''Input is a bit short. Could you elaborate?''
      else if length currentTokens > 7 \<and> rnd k > 0.5
        then ''My name is LLM-Vis. What's yours?'' @ '' A lot to think about!''
      else ''My name is LLM-Vis. What's yours?'')"
proof -
  have "generatedPart rnd k now input currentTokens = (''My name is LLM-Vis. What's yours?'', k)"
    using assms(1-3) by (simp add: generatedPart_def)
  then show ?thesis
    using assms(4) by (simp add: generateSimpleOutput_def)
qed

lemma name_input_example:
  "str_includes (toLowerCase ''What is your name?'') ''name'' \<and>
   \<not> str_includes (toLowerCase ''What is your name?'') ''hello'' \<and>
   \<not> str_includes (toLowerCase ''What is your name?'') ''question'' \<and>
   tokenizeText ''What is your name?'' = [''what'', ''is'', ''your'', ''name'']"
  by code_simp

theorem name_reply_witness:
  "str_includes (toLowerCase ''What is your name?'') ''name'' \<and>
   \<not> str_includes (toLowerCase ''What is your name?'') ''hello'' \<and>
   \<not> str_includes (toLowerCase ''What is your name?'') ''question'' \<and>
   [''what'', ''is'', ''your'', ''name''] \<noteq> [] \<and>
   fst (generateSimpleOutput (rngOfList []) 0 ''12:00:00'' 4 ''What is your name?''
          [''what'', ''is'', ''your'', ''name''] []) = ''My name is LLM-Vis. What's yours?''"
proof -
  note e = name_input_example
  have n: "[''what'', ''is'', ''your'', ''name''] \<noteq> []" by simp
  from name_reply [OF e [THEN conjunct1] e [THEN conjunct2, THEN conjunct1]
      e [THEN conjunct2, THEN conjunct2, THEN conjunct1] n,
      of "rngOfList []" 0 "''12:00:00''" 4 "[]"]
  have "fst (generateSimpleOutput (rngOfList []) 0 ''12:00:00'' 4 ''What is your name?''
          [''what'', ''is'', ''your'', ''name''] []) = ''My name is LLM-Vis. What's yours?''"
    by simp
  with e n show ?thesis by blast
qed

text \<open>
  The input \<open>Your name?\<close> has two tokens: at the last stage, where the component
  calls the function, the reply of the \<open>name\<close> branch is replaced.
\<close>

theorem name_reply_counterexample:
  "str_includes (toLowerCase ''Your name?'') ''name'' \<and>
   \<not> str_includes (toLowerCase ''Your name?'') ''hello'' \<and>
   \<not> str_includes (toLowerCase ''Your name?'') ''question'' \<and>
   tokenizeText ''Your name?'' = [''your'', ''name''] \<and>
   fst (generateSimpleOutput (rngOfList []) 0 ''12:00:00'' 4 ''Your name?''
          (tokenizeText ''Your name?'') []) = ''Input is a bit short. Could you elaborate?'' \<and>
   ''Input is a bit short. Could you elaborate?'' \<noteq> ''My name is LLM-Vis. What's yours?''"
  by code_simp

section \<open>The stage controller\<close>

lemma advanceEffect_fields [simp]:
  "inputText (advanceEffect s) = inputText s"
  "currentStep (advanceEffect s) = currentStep s"
  "embeddingDimension (advanceEffect s) = embeddingDimension s"
  "animationSpeed (advanceEffect s) = animationSpeed s"
  "tokens (advanceEffect s) = tokens s"
  "embeddings (advanceEffect s) = embeddings s"
  "attentionWeights (advanceEffect s) = attentionWeights s"
  "outputText (advanceEffect s) = outputText s"
  by (simp_all add: advanceEffect_def Let_def)

lemma recomputeEffect_fields [simp]:
  "inputText (recomputeEffect rnd now s) = inputText s"
  "currentStep (recomputeEffect rnd now s) = currentStep s"
  "embeddingDimension (recomputeEffect rnd now s) = embeddingDimension s"
  "animationSpeed (recomputeEffect rnd now s) = animationSpeed s"
  "isPlaying (recomputeEffect rnd now s) = isPlaying s"
  "timer (recomputeEffect rnd now s) = timer s"
  "nextTimerId (recomputeEffect rnd now s) = nextTimerId s"
  by (simp_all add: recomputeEffect_def Let_def)

lemma recomputeEffect_gated: "stageGated (recomputeEffect rnd now s)"
  by (simp add: stageGated_def recomputeEffect_def Let_def)

lemma advanceEffect_gated: "stageGated (advanceEffect s) = stageGated s"
  by (simp add: stageGated_def)

lemma runEffects_gated:
  "stageGated s \<or> inputText prev \<noteq> inputText s \<or> currentStep prev \<noteq> currentStep s
     \<or> embeddingDimension prev \<noteq> embeddingDimension s \<Longrightarrow>
   stageGated (runEffects rnd now prev s)"
  by (auto simp: runEffects_def Let_def recomputeEffect_gated advanceEffect_gated)

lemma handler_gated:
  "stageGated prev \<Longrightarrow>
   stageGated (handler ev prev) \<or> inputText prev \<noteq> inputText (handler ev prev)
     \<or> currentStep prev \<noteq> currentStep (handler ev prev)
     \<or> embeddingDimension prev \<noteq> embeddingDimension (handler ev prev)"
  by (cases ev)
     (auto simp: stageGated_def handleInputChange_def handlePlay_def handleReset_def
        handleStepClick_def handleSpeedChange_def handleEmbeddingDimensionChange_def
        timerCallback_def)

lemma runEffects_deps [simp]:
  "inputText (runEffects rnd now prev s) = inputText s"
  "currentStep (runEffects rnd now prev s) = currentStep s"
  "embeddingDimension (runEffects rnd now prev s) = embeddingDimension s"
  "animationSpeed (runEffects rnd now prev s) = animationSpeed s"
  by (simp_all add: runEffects_def Let_def)

lemma step_gated: "stageGated s \<Longrightarrow> stageGated (step rnd now ev s)"
proof -
  assume "stageGated s"
  then have "stageGated (runEffects rnd now s (handler ev s))"
    by (intro runEffects_gated) (use handler_gated [of s ev] in blast)
  then have "stageGated (runEffects rnd now (handler ev s) (runEffects rnd now s (handler ev s)))"
    by (intro runEffects_gated) simp
  then show ?thesis by (simp add: step_def Let_def)
qed

lemma reachable_gated: "reachable s \<Longrightarrow> stageGated s"
proof (induction rule: reachable.induct)
  case (reachable_mount rnd now)
  show ?case by (simp add: mount_def recomputeEffect_gated)
next
  case (reachable_step s rnd now ev)
  then show ?case by (simp add: step_gated)
qed

text \<open>
  Claim C6. In every state reached from the mounted component by the events (a
  change of the text, a click on play or pause, on reset or on a stage, a change of
  the interval or of the dimension, a timeout that fires), once the effects have run:
  \<open>tokens\<close> is \<open>tokenizeText inputText\<close>, \<open>embeddings\<close> is empty below stage 2,
  \<open>attentionWeights\<close> is empty below stage 3 and \<open>output\<close> is empty below stage 4.
\<close>

theorem stage_gating:
  "reachable s \<Longrightarrow>
   tokens s = tokenizeText (inputText s) \<and>
   (currentStep s < 2 \<longrightarrow> embeddings s = []) \<and>
   (currentStep s < 3 \<longrightarrow> attentionWeights s = []) \<and>
   (currentStep s < 4 \<longrightarrow> outputText s = [])"
  using reachable_gated [of s] by (simp add: stageGated_def)

lemma step_click_example:
  "currentStep (step (rngOfList []) ''12:00:00'' (StepClick 1) (mount (rngOfList []) ''12:00:00'')) = 1
   \<and> inputText (step (rngOfList []) ''12:00:00'' (StepClick 1) (mount (rngOfList []) ''12:00:00''))
       = ''The quick brown fox''"
  by (simp add: step_def mount_def handleStepClick_def defaultState_def Let_def)

theorem stage_gating_witness:
  "reachable (step (rngOfList []) ''12:00:00'' (StepClick 1) (mount (rngOfList []) ''12:00:00'')) \<and>
   tokens (step (rngOfList []) ''12:00:00'' (StepClick 1) (mount (rngOfList []) ''12:00:00''))
     = [''the'', ''quick'', ''brown'', ''fox''] \<and>
   embeddings (step (rngOfList []) ''12:00:00'' (StepClick 1) (mount (rngOfList []) ''12:00:00'')) = [] \<and>
   attentionWeights (step (rngOfList []) ''12:00:00'' (StepClick 1) (mount (rngOfList []) ''12:00:00'')) = [] \<and>
   outputText (step (rngOfList []) ''12:00:00'' (StepClick 1) (mount (rngOfList []) ''12:00:00'')) = []"
proof -
  let ?s = "step (rngOfList []) ''12:00:00'' (StepClick 1) (mount (rngOfList []) ''12:00:00'')"
  have r: "reachable ?s" by (intro reachable_step reachable_mount)
  have t: "tokenizeText ''The quick brown fox'' = [''the'', ''quick'', ''brown'', ''fox'']"
    by code_simp
  from stage_gating [OF r] step_click_example t
  have "tokens ?s = [''the'', ''quick'', ''brown'', ''fox''] \<and> embeddings ?s = [] \<and>
        attentionWeights ?s = [] \<and> outputText ?s = []"
    by simp
  with r show ?thesis by blast
qed

section \<open>Cancelling the timeout\<close>

lemma advanceEffect_pending: "timerPending (advanceEffect s)"
  by (simp add: timerPending_def advanceEffect_def Let_def)

lemma recomputeEffect_pending: "timerPending (recomputeEffect rnd now s) = timerPending s"
  by (simp add: timerPending_def split: option.splits)

lemma runEffects_pending:
  "timerPending s \<or> currentStep prev \<noteq> currentStep s \<or> isPlaying prev \<noteq> isPlaying s
     \<or> animationSpeed prev \<noteq> animationSpeed s \<Longrightarrow>
   timerPending (runEffects rnd now prev s)"
  by (auto simp: runEffects_def Let_def recomputeEffect_pending advanceEffect_pending)

lemma handler_pending:
  "timerPending prev \<Longrightarrow>
   timerPending (handler ev prev) \<or> currentStep prev \<noteq> currentStep (handler ev prev)
     \<or> isPlaying prev \<noteq> isPlaying (handler ev prev)
     \<or> animationSpeed prev \<noteq> animationSpeed (handler ev prev)"
  by (cases ev)
     (auto simp: timerPending_def handleInputChange_def handlePlay_def handleReset_def
        handleStepClick_def handleSpeedChange_def handleEmbeddingDimensionChange_def
        timerCallback_def split: option.splits)

lemma step_pending: "timerPending s \<Longrightarrow> timerPending (step rnd now ev s)"
proof -
  assume "timerPending s"
  then have "timerPending (runEffects rnd now s (handler ev s))"
    by (intro runEffects_pending) (use handler_pending [of s ev] in blast)
  then have "timerPending (runEffects rnd now (handler ev s) (runEffects rnd now s (handler ev s)))"
    by (intro runEffects_pending) simp
  then show ?thesis by (simp add: step_def Let_def)
qed

lemma reachable_pending: "reachable s \<Longrightarrow> timerPending s"
proof (induction rule: reachable.induct)
  case (reachable_mount rnd now)
  show ?case by (simp add: mount_def recomputeEffect_pending advanceEffect_pending)
next
  case (reachable_step s rnd now ev)
  then show ?case by (simp add: step_pending)
qed

lemma runEffects_same: "runEffects rnd now s s = s"
  by (simp add: runEffects_def)

lemma step_TimerFires_other: "timer s \<noteq> Some tid \<Longrightarrow> step rnd now (TimerFires tid) s = s"
  by (simp add: step_def timerCallback_def runEffects_same)

lemma handler_gone: "timerGone tid s \<Longrightarrow> timerGone tid (handler ev s)"
  by (cases ev)
     (auto simp: timerGone_def handleInputChange_def handlePlay_def handleReset_def
        handleStepClick_def handleSpeedChange_def handleEmbeddingDimensionChange_def
        timerCallback_def)

lemma advanceEffect_gone: "timerGone tid s \<Longrightarrow> timerGone tid (advanceEffect s)"
  by (auto simp: timerGone_def advanceEffect_def Let_def)

lemma recomputeEffect_gone: "timerGone tid (recomputeEffect rnd now s) = timerGone tid s"
  by (simp add: timerGone_def)

lemma runEffects_gone: "timerGone tid s \<Longrightarrow> timerGone tid (runEffects rnd now prev s)"
  by (simp add: runEffects_def Let_def recomputeEffect_gone advanceEffect_gone)

lemma step_gone: "timerGone tid s \<Longrightarrow> timerGone tid (step rnd now ev s)"
  by (simp add: step_def Let_def runEffects_gone handler_gone)

lemma run_gone: "timerGone tid s \<Longrightarrow> timerGone tid (run es s)"
proof (induction es arbitrary: s)
  case Nil
  then show ?case by simp
next
  case (Cons e es)
  obtain rnd now ev where e: "e = (rnd, now, ev)" by (cases e)
  show ?case unfolding e using Cons by (simp add: step_gone)
qed

lemma runEffects_unchanged:
  "currentStep prev = currentStep s \<Longrightarrow> isPlaying prev = isPlaying s \<Longrightarrow>
   animationSpeed prev = animationSpeed s \<Longrightarrow> inputText prev = inputText s \<Longrightarrow>
   embeddingDimension prev = embeddingDimension s \<Longrightarrow> runEffects rnd now prev s = s"
  by (simp add: runEffects_def)

lemma advanceEffect_paused:
  "\<not> isPlaying s \<Longrightarrow>
   timer (advanceEffect s) = None \<and> \<not> isPlaying (advanceEffect s) \<and>
   nextTimerId (advanceEffect s) = nextTimerId s"
  by (simp add: advanceEffect_def Let_def)

lemma runEffects_paused:
  assumes "isPlaying prev" and "\<not> isPlaying s"
  shows "timer (runEffects rnd now prev s) = None \<and> \<not> isPlaying (runEffects rnd now prev s) \<and>
         nextTimerId (runEffects rnd now prev s) = nextTimerId s"
proof -
  have "runEffects rnd now prev s = advanceEffect s \<or>
        runEffects rnd now prev s = recomputeEffect rnd now (advanceEffect s)"
    using assms by (simp add: runEffects_def Let_def)
  then show ?thesis
    using advanceEffect_paused [OF assms(2)] by auto
qed

lemma handler_pause:
  assumes "isPlaying s" and "ev = PlayClick \<or> ev = ResetClick \<or> ev = StepClick i"
  shows "\<not> isPlaying (handler ev s) \<and> nextTimerId (handler ev s) = nextTimerId s"
  using assms by (auto simp: handlePlay_def handleReset_def handleStepClick_def)

lemma cancel_step:
  assumes "timerPending s" and "timer s = Some tid"
    and "ev = PlayClick \<or> ev = ResetClick \<or> ev = StepClick i"
  shows "timer (step rnd now ev s) = None \<and> \<not> isPlaying (step rnd now ev s) \<and>
         timerGone tid (step rnd now ev s)"
proof -
  from assms(1,2) have p: "isPlaying s" and t: "tid < nextTimerId s"
    by (simp_all add: timerPending_def)
  define h where "h = handler ev s"
  have h: "\<not> isPlaying h" "nextTimerId h = nextTimerId s"
    using handler_pause [OF p assms(3)] by (simp_all add: h_def)
  define s1 where "s1 = runEffects rnd now s h"
  have s1: "timer s1 = None" "\<not> isPlaying s1" "nextTimerId s1 = nextTimerId h"
    using runEffects_paused [OF p h(1), of rnd now] by (simp_all add: s1_def)
  have "runEffects rnd now h s1 = s1"
  proof (rule runEffects_unchanged)
    show "currentStep h = currentStep s1" by (simp add: s1_def)
    show "isPlaying h = isPlaying s1" using h(1) s1(2) by simp
    show "animationSpeed h = animationSpeed s1" by (simp add: s1_def)
    show "inputText h = inputText s1" by (simp add: s1_def)
    show "embeddingDimension h = embeddingDimension s1" by (simp add: s1_def)
  qed
  then have "step rnd now ev s = s1"
    by (simp add: step_def Let_def h_def s1_def)
  moreover have "timerGone tid s1"
    using s1 h(2) t by (simp add: timerGone_def)
  ultimately show ?thesis using s1 by simp
qed

text \<open>
  Claim C9. In a reachable state with a pending timeout \<open>tid\<close>, a click that pauses
  (play while playing), resets or selects a stage clears the timeout and leaves
  \<open>isPlaying\<close> false; whatever events follow, the timeout \<open>tid\<close> never changes the
  state again. In every reachable state where \<open>isPlaying\<close> is false no timeout is
  pending, so no timeout advances the stage.
\<close>

theorem timer_cancelled:
  assumes "reachable s" and "timer s = Some tid"
    and "ev = PlayClick \<or> ev = ResetClick \<or> ev = StepClick i"
  shows "timer (step rnd now ev s) = None \<and> \<not> isPlaying (step rnd now ev s) \<and>
     (\<forall>es rnd' now'.
        step rnd' now' (TimerFires tid) (run es (step rnd now ev s)) = run es (step rnd now ev s)) \<and>
     (\<forall>s' rnd' now' tid'.
        reachable s' \<and> \<not> isPlaying s' \<longrightarrow> step rnd' now' (TimerFires tid') s' = s')"
proof -
  note c = cancel_step [OF reachable_pending [OF assms(1)] assms(2,3), of rnd now]
  have a: "step rnd' now' (TimerFires tid) (run es (step rnd now ev s)) = run es (step rnd now ev s)"
    for es rnd' now'
  proof -
    have "timerGone tid (run es (step rnd now ev s))"
      using c by (intro run_gone) simp
    then show ?thesis by (intro step_TimerFires_other) (simp add: timerGone_def)
  qed
  have b: "step rnd' now' (TimerFires tid') s' = s'" if "reachable s'" "\<not> isPlaying s'"
    for s' rnd' now' tid'
  proof -
    have "timer s' = None"
      using reachable_pending [OF that(1)] that(2) by (simp add: timerPending_def split: option.splits)
    then show ?thesis by (intro step_TimerFires_other) simp
  qed
  from c a b show ?thesis by blast
qed

lemma play_example:
  "timer (step (rngOfList []) ''12:00:00'' PlayClick (mount (rngOfList []) ''12:00:00'')) = Some 0
   \<and> currentStep (step (rngOfList []) ''12:00:00'' PlayClick (mount (rngOfList []) ''12:00:00'')) = 0"
  by (simp add: step_def mount_def handlePlay_def defaultState_def Let_def runEffects_def
      advanceEffect_def stepsLength_def)

theorem timer_cancelled_witness:
  "reachable (step (rngOfList []) ''12:00:00'' PlayClick (mount (rngOfList []) ''12:00:00'')) \<and>
   timer (step (rngOfList []) ''12:00:00'' PlayClick (mount (rngOfList []) ''12:00:00'')) = Some 0 \<and>
   timer (step (rngOfList []) ''12:00:01'' PlayClick
           (step (rngOfList []) ''12:00:00'' PlayClick (mount (rngOfList []) ''12:00:00''))) = None \<and>
   \<not> isPlaying (step (rngOfList []) ''12:00:01'' PlayClick
           (step (rngOfList []) ''12:00:00'' PlayClick (mount (rngOfList []) ''12:00:00''))) \<and>
   step (rngOfList []) ''12:00:02'' (TimerFires 0)
     (run [] (step (rngOfList []) ''12:00:01'' PlayClick
           (step (rngOfList []) ''12:00:00'' PlayClick (mount (rngOfList []) ''12:00:00'')))) =
     run [] (step (rngOfList []) ''12:00:01'' PlayClick
           (step (rngOfList []) ''12:00:00'' PlayClick (mount (rngOfList []) ''12:00:00'')))"
proof -
  let ?s = "step (rngOfList []) ''12:00:00'' PlayClick (mount (rngOfList []) ''12:00:00'')"
  have r: "reachable ?s" by (intro reachable_step reachable_mount)
  have t: "timer ?s = Some 0" using play_example by blast
  have e: "PlayClick = PlayClick \<or> PlayClick = ResetClick \<or> PlayClick = StepClick 0" by simp
  note w = timer_cancelled [OF r t e, of "rngOfList []" "''12:00:01''"]
  from w have "step (rngOfList []) ''12:00:02'' (TimerFires 0)
      (run [] (step (rngOfList []) ''12:00:01'' PlayClick ?s)) =
      run [] (step (rngOfList []) ''12:00:01'' PlayClick ?s)"
    by blast
  with w r t show ?thesis by blast
qed

section \<open>The effects settle\<close>

lemma advanceEffect_idle:
  "\<not> isPlaying s \<Longrightarrow> \<not> isPlaying (advanceEffect s)"
  by (simp add: advanceEffect_def Let_def)

lemma runEffects_idle: "\<not> isPlaying s \<Longrightarrow> \<not> isPlaying (runEffects rnd now prev s)"
  by (simp add: runEffects_def Let_def advanceEffect_idle)

lemma runEffects_playing:
  "isPlaying (runEffects rnd now prev s) \<Longrightarrow> isPlaying s"
  using runEffects_idle by blast

lemma runEffects_isPlaying_same:
  "currentStep prev = currentStep s \<Longrightarrow> isPlaying prev = isPlaying s \<Longrightarrow>
   animationSpeed prev = animationSpeed s \<Longrightarrow>
   isPlaying (runEffects rnd now prev s) = isPlaying s"
  by (simp add: runEffects_def Let_def)

text \<open>After the two passes of \<open>step\<close> a further pass finds no dependency changed.\<close>

lemma step_settled:
  "runEffects rnd' now' (runEffects rnd now prev (handler ev prev)) (step rnd now ev prev)
     = step rnd now ev prev"
proof -
  define s where "s = handler ev prev"
  define s1 where "s1 = runEffects rnd now prev s"
  define s2 where "s2 = runEffects rnd now s s1"
  have s2: "step rnd now ev prev = s2"
    by (simp add: step_def Let_def s_def s1_def s2_def)
  have "isPlaying s2 = isPlaying s1"
  proof (cases "isPlaying s1")
    case True
    then have "isPlaying s" unfolding s1_def by (rule runEffects_playing)
    with True have "isPlaying s = isPlaying s1" by simp
    moreover have "currentStep s = currentStep s1" "animationSpeed s = animationSpeed s1"
      by (simp_all add: s1_def)
    ultimately show ?thesis unfolding s2_def by (intro runEffects_isPlaying_same)
  next
    case False
    then have "\<not> isPlaying s2" unfolding s2_def by (rule runEffects_idle)
    with False show ?thesis by simp
  qed
  then have "runEffects rnd' now' s1 s2 = s2"
    by (intro runEffects_unchanged) (simp_all add: s2_def)
  then show ?thesis by (simp add: s2 s1_def s_def)
qed

end
